theory Spec2Isabelle
  imports Complex_Main
begin

text \<open>
  The matching module of the ride-matching demo (the second part of \<open>src/Map.tsx\<close>, lines
  580 to 688): the great-circle distance, the distance from a point to a route, the
  direction check, the detour estimate, and \<open>findMatches\<close>, which filters the offers against
  a request, scores the survivors and sorts them by score. The first sections translate
  the module, function by function; the later ones prove what it does.
\<close>

section \<open>Numbers\<close>

text \<open>
  The matching module computes with the \<open>number\<close> type of the source language. A value
  is a finite number, one of the two infinities, or NaN. The source writes \<open>Infinity\<close>
  itself (the start value of a minimum), and NaN arises from coordinates that are not
  finite, so both are part of the model. Finite values are reals and arithmetic on them is
  exact: rounding, overflow and the sign of zero are not represented.
\<close>

datatype jsnum = Fin real | PInf | NInf | NaN

fun jneg :: "jsnum \<Rightarrow> jsnum" where
  "jneg (Fin x) = Fin (- x)"
| "jneg PInf = NInf"
| "jneg NInf = PInf"
| "jneg NaN = NaN"

fun jadd :: "jsnum \<Rightarrow> jsnum \<Rightarrow> jsnum" where
  "jadd NaN _ = NaN"
| "jadd _ NaN = NaN"
| "jadd (Fin x) (Fin y) = Fin (x + y)"
| "jadd PInf NInf = NaN"
| "jadd NInf PInf = NaN"
| "jadd PInf _ = PInf"
| "jadd _ PInf = PInf"
| "jadd NInf _ = NInf"
| "jadd _ NInf = NInf"

definition jsub :: "jsnum \<Rightarrow> jsnum \<Rightarrow> jsnum" where
  "jsub a b = jadd a (jneg b)"

text \<open>The sign of an infinite product or quotient: \<open>True\<close> is positive.\<close>

fun jinf :: "bool \<Rightarrow> jsnum" where
  "jinf True = PInf"
| "jinf False = NInf"

fun jmul :: "jsnum \<Rightarrow> jsnum \<Rightarrow> jsnum" where
  "jmul NaN _ = NaN"
| "jmul _ NaN = NaN"
| "jmul (Fin x) (Fin y) = Fin (x * y)"
| "jmul (Fin x) PInf = (if x = 0 then NaN else jinf (0 < x))"
| "jmul (Fin x) NInf = (if x = 0 then NaN else jinf (x < 0))"
| "jmul PInf (Fin y) = (if y = 0 then NaN else jinf (0 < y))"
| "jmul NInf (Fin y) = (if y = 0 then NaN else jinf (y < 0))"
| "jmul PInf PInf = PInf"
| "jmul NInf NInf = PInf"
| "jmul PInf NInf = NInf"
| "jmul NInf PInf = NInf"

fun jdiv :: "jsnum \<Rightarrow> jsnum \<Rightarrow> jsnum" where
  "jdiv NaN _ = NaN"
| "jdiv _ NaN = NaN"
| "jdiv (Fin x) (Fin y) =
     (if y = 0 then (if x = 0 then NaN else jinf (0 < x)) else Fin (x / y))"
| "jdiv (Fin x) _ = Fin 0"
| "jdiv PInf (Fin y) = jinf (0 \<le> y)"
| "jdiv NInf (Fin y) = jinf (y < 0)"
| "jdiv _ _ = NaN"

text \<open>The comparison operators. Every comparison with NaN is false.\<close>

fun jlt :: "jsnum \<Rightarrow> jsnum \<Rightarrow> bool" where
  "jlt NaN _ = False"
| "jlt _ NaN = False"
| "jlt (Fin x) (Fin y) = (x < y)"
| "jlt _ NInf = False"
| "jlt PInf _ = False"
| "jlt _ _ = True"

definition jgt :: "jsnum \<Rightarrow> jsnum \<Rightarrow> bool" where
  "jgt a b = jlt b a"

fun jle :: "jsnum \<Rightarrow> jsnum \<Rightarrow> bool" where
  "jle NaN _ = False"
| "jle _ NaN = False"
| "jle a b = (\<not> jlt b a)"

text \<open>The functions of \<open>Math\<close> that the distance uses.\<close>

definition Math_PI :: jsnum where
  "Math_PI = Fin pi"

fun Math_sin :: "jsnum \<Rightarrow> jsnum" where
  "Math_sin (Fin x) = Fin (sin x)"
| "Math_sin _ = NaN"

fun Math_cos :: "jsnum \<Rightarrow> jsnum" where
  "Math_cos (Fin x) = Fin (cos x)"
| "Math_cos _ = NaN"

fun Math_sqrt :: "jsnum \<Rightarrow> jsnum" where
  "Math_sqrt (Fin x) = (if x < 0 then NaN else Fin (sqrt x))"
| "Math_sqrt PInf = PInf"
| "Math_sqrt _ = NaN"

fun Math_atan2 :: "jsnum \<Rightarrow> jsnum \<Rightarrow> jsnum" where
  "Math_atan2 NaN _ = NaN"
| "Math_atan2 _ NaN = NaN"
| "Math_atan2 (Fin y) (Fin x) =
     Fin (if 0 < x then arctan (y / x)
          else if x < 0 then (if 0 \<le> y then arctan (y / x) + pi else arctan (y / x) - pi)
          else if 0 < y then pi / 2
          else if y < 0 then - (pi / 2)
          else 0)"
| "Math_atan2 (Fin y) PInf = Fin 0"
| "Math_atan2 (Fin y) NInf = Fin (if 0 \<le> y then pi else - pi)"
| "Math_atan2 PInf (Fin x) = Fin (pi / 2)"
| "Math_atan2 NInf (Fin x) = Fin (- (pi / 2))"
| "Math_atan2 PInf PInf = Fin (pi / 4)"
| "Math_atan2 PInf NInf = Fin (3 * pi / 4)"
| "Math_atan2 NInf PInf = Fin (- (pi / 4))"
| "Math_atan2 NInf NInf = Fin (- (3 * pi / 4))"

section \<open>Data model\<close>

record Coordinate =
  lat :: jsnum
  lon :: jsnum

text \<open>
  A \<open>Date\<close> holds a time value: an integer number of milliseconds, or NaN for an invalid
  date (as \<open>new Date(NaN)\<close> or the date of a string that does not parse). \<open>getTime\<close>
  returns it as a number. Time values are bounded by 8.64e15 in absolute value, so the
  window arithmetic on them is exact.
\<close>

datatype Date = ValidDate int | InvalidDate

fun getTime :: "Date \<Rightarrow> jsnum" where
  "getTime (ValidDate ms) = Fin (of_int ms)"
| "getTime InvalidDate = NaN"

record RideOffer =
  offerId :: string
  departure :: Coordinate
  destination :: Coordinate
  departureTime :: Date
  maxDetourMinutes :: jsnum
  freeSeats :: jsnum
  route :: "Coordinate list"

record RideRequest =
  requestId :: string
  from_req :: Coordinate
  to_req :: Coordinate
  departureTime_req :: Date
  maxWalkMeters :: jsnum
  rideNow :: bool

text \<open>An entry of the result array: the offer and its score.\<close>

type_synonym Match = "RideOffer \<times> jsnum"

text \<open>Reading the \<open>lat\<close> of \<open>undefined\<close> throws; it is the only way the module can fail.\<close>

datatype error = TypeError

section \<open>Geo primitives\<close>

text \<open>\<open>haversineDistance\<close> (lines 604 to 615), one binding for each \<open>const\<close>.\<close>

definition haversineDistance :: "Coordinate \<Rightarrow> Coordinate \<Rightarrow> jsnum" where
  "haversineDistance a b =
     (let R = Fin 6371000;
          phi1 = jdiv (jmul (lat a) Math_PI) (Fin 180);
          phi2 = jdiv (jmul (lat b) Math_PI) (Fin 180);
          dphi = jdiv (jmul (jsub (lat b) (lat a)) Math_PI) (Fin 180);
          dlam = jdiv (jmul (jsub (lon b) (lon a)) Math_PI) (Fin 180);
          sin_dphi = Math_sin (jdiv dphi (Fin 2));
          sin_dlam = Math_sin (jdiv dlam (Fin 2));
          aa = jadd (jmul sin_dphi sin_dphi)
                    (jmul (jmul (jmul (Math_cos phi1) (Math_cos phi2)) sin_dlam) sin_dlam);
          c = jmul (Fin 2) (Math_atan2 (Math_sqrt aa) (Math_sqrt (jsub (Fin 1) aa)))
      in jmul R c)"

text \<open>
  \<open>minDistanceToRoute\<close> (lines 617 to 626); \<open>minDistLoop\<close> is its loop, with \<open>minDist\<close>
  as the accumulator, which starts at \<open>Infinity\<close>.
\<close>

fun minDistLoop :: "Coordinate \<Rightarrow> jsnum \<Rightarrow> Coordinate list \<Rightarrow> jsnum" where
  "minDistLoop point minDist [] = minDist"
| "minDistLoop point minDist (node # rest) =
     (let dist = haversineDistance point node
      in minDistLoop point (if jlt dist minDist then dist else minDist) rest)"

definition minDistanceToRoute :: "Coordinate \<Rightarrow> Coordinate list \<Rightarrow> jsnum" where
  "minDistanceToRoute point rt = minDistLoop point PInf rt"

text \<open>
  \<open>isCorrectDirection\<close>, \<open>estimateDetourDistance\<close> and \<open>detourDistanceToMinutes\<close> (lines
  628 to 647). The indices are integers, -1 being the sentinel. The default value 30 of
  \<open>avgSpeedKph\<close> is passed by the caller.
\<close>

definition isCorrectDirection :: "int \<Rightarrow> int \<Rightarrow> bool" where
  "isCorrectDirection pickupIdx dropoffIdx =
     (pickupIdx \<ge> 0 \<and> dropoffIdx \<ge> 0 \<and> pickupIdx < dropoffIdx)"

definition estimateDetourDistance :: "RideOffer \<Rightarrow> Coordinate \<Rightarrow> Coordinate \<Rightarrow> jsnum" where
  "estimateDetourDistance offer pickupPoint dropoffPoint =
     (let directDistance = haversineDistance (departure offer) (destination offer);
          toPickup = haversineDistance (departure offer) pickupPoint;
          betweenStops = haversineDistance pickupPoint dropoffPoint;
          toDestination = haversineDistance dropoffPoint (destination offer)
      in jsub (jadd (jadd toPickup betweenStops) toDestination) directDistance)"

definition detourDistanceToMinutes :: "jsnum \<Rightarrow> jsnum \<Rightarrow> jsnum" where
  "detourDistanceToMinutes detourMeters avgSpeedKph =
     (let speedMetersPerMin = jdiv (jmul avgSpeedKph (Fin 1000)) (Fin 60)
      in jdiv detourMeters speedMetersPerMin)"

section \<open>The nearest waypoint\<close>

text \<open>
  \<open>findMatches\<close> finds the index of the nearest waypoint with
  \<open>offer.route.reduce((bestIdx, node, idx) => ..., -1)\<close>, once for the pickup and once for
  the dropoff. \<open>arrayGet\<close> is the array read \<open>offer.route[bestIdx]\<close>, which is
  \<open>undefined\<close> outside the array; \<open>nearestStep\<close> is the callback and \<open>reduceLoop\<close> the
  iteration of \<open>reduce\<close> over the elements and their indices.
\<close>

definition arrayGet :: "'a list \<Rightarrow> int \<Rightarrow> 'a option" where
  "arrayGet xs i = (if 0 \<le> i \<and> i < int (length xs) then Some (xs ! nat i) else None)"

definition nearestStep :: "Coordinate \<Rightarrow> Coordinate list \<Rightarrow> int \<Rightarrow> Coordinate \<Rightarrow> int \<Rightarrow> error + int" where
  "nearestStep point rt bestIdx node idx =
     (case (if bestIdx \<ge> 0
            then (case arrayGet rt bestIdx of
                    None \<Rightarrow> Inl TypeError
                  | Some w \<Rightarrow> Inr (haversineDistance point w))
            else Inr PInf) of
        Inl e \<Rightarrow> Inl e
      | Inr bestDist \<Rightarrow>
          (let dist = haversineDistance point node
           in Inr (if jlt dist bestDist then idx else bestIdx)))"

fun reduceLoop :: "('b \<Rightarrow> 'a \<Rightarrow> int \<Rightarrow> error + 'b) \<Rightarrow> 'b \<Rightarrow> int \<Rightarrow> 'a list \<Rightarrow> error + 'b" where
  "reduceLoop f acc idx [] = Inr acc"
| "reduceLoop f acc idx (x # xs) =
     (case f acc x idx of
        Inl e \<Rightarrow> Inl e
      | Inr acc' \<Rightarrow> reduceLoop f acc' (idx + 1) xs)"

definition nearestWaypointIdx :: "Coordinate \<Rightarrow> Coordinate list \<Rightarrow> error + int" where
  "nearestWaypointIdx point rt = reduceLoop (nearestStep point rt) (- 1) 0 rt"

section \<open>The matcher\<close>

text \<open>
  \<open>findMatches\<close> (lines 649 to 688). \<open>matchOffer\<close> is the body of the loop over the
  offers (lines 661 to 684): \<open>Inr None\<close> is \<open>continue\<close>, \<open>Inr (Some r)\<close> pushes \<open>r\<close> to
  the results. \<open>windowStart\<close> and \<open>windowEnd\<close> are computed before the loop and passed in.
  \<open>matchLoop\<close> is the loop, with the array \<open>results\<close> as the accumulator.
\<close>

definition matchOffer :: "RideRequest \<Rightarrow> jsnum \<Rightarrow> jsnum \<Rightarrow> RideOffer \<Rightarrow> error + Match option" where
  "matchOffer request windowStart windowEnd offer =
     (if jle (freeSeats offer) (Fin 0) then Inr None
      else let offerTime = getTime (departureTime offer) in
      if jlt offerTime windowStart \<or> jgt offerTime windowEnd then Inr None
      else let pickupDistance = minDistanceToRoute (from_req request) (route offer);
               dropoffDistance = minDistanceToRoute (to_req request) (route offer) in
      if jgt pickupDistance (maxWalkMeters request) \<or> jgt dropoffDistance (maxWalkMeters request)
      then Inr None
      else case nearestWaypointIdx (from_req request) (route offer) of
        Inl e \<Rightarrow> Inl e
      | Inr pickupIdx \<Rightarrow>
      (case nearestWaypointIdx (to_req request) (route offer) of
        Inl e \<Rightarrow> Inl e
      | Inr dropoffIdx \<Rightarrow>
      if \<not> isCorrectDirection pickupIdx dropoffIdx then Inr None
      else let detourMeters = estimateDetourDistance offer (from_req request) (to_req request);
               detourMinutes = detourDistanceToMinutes detourMeters (Fin 30) in
      if jgt detourMinutes (maxDetourMinutes offer) \<or> jgt detourMinutes (Fin 5) then Inr None
      else let score = jadd (jmul detourMinutes (Fin 2))
                            (jdiv (jadd pickupDistance dropoffDistance) (Fin 1000))
      in Inr (Some (offer, score))))"

fun matchLoop :: "RideRequest \<Rightarrow> jsnum \<Rightarrow> jsnum \<Rightarrow> Match list \<Rightarrow> RideOffer list \<Rightarrow> error + Match list" where
  "matchLoop request windowStart windowEnd results [] = Inr results"
| "matchLoop request windowStart windowEnd results (offer # rest) =
     (case matchOffer request windowStart windowEnd offer of
        Inl e \<Rightarrow> Inl e
      | Inr None \<Rightarrow> matchLoop request windowStart windowEnd results rest
      | Inr (Some r) \<Rightarrow> matchLoop request windowStart windowEnd (results @ [r]) rest)"

text \<open>
  \<open>results.sort((a, b) => a.score - b.score)\<close>. The sort of the language is stable, and
  a comparator result of NaN counts as zero (\<open>sortCompare\<close>). For a comparator that orders
  the elements consistently every stable sort returns the same array, and the insertion
  sort below returns that array. When a score is NaN the comparator is not consistent and
  the language leaves the order to the implementation; the model then still is the
  insertion sort. An array in which every neighbour compares as equal to the next is left
  as it is by the model, as it is by an insertion sort from either end and by the run
  detection of a merge sort.
\<close>

definition compareScore :: "Match \<Rightarrow> Match \<Rightarrow> jsnum" where
  "compareScore a b = jsub (snd a) (snd b)"

definition sortCompare :: "('a \<Rightarrow> 'a \<Rightarrow> jsnum) \<Rightarrow> 'a \<Rightarrow> 'a \<Rightarrow> jsnum" where
  "sortCompare comparefn x y = (let v = comparefn x y in if v = NaN then Fin 0 else v)"

fun sortInsert :: "('a \<Rightarrow> 'a \<Rightarrow> jsnum) \<Rightarrow> 'a \<Rightarrow> 'a list \<Rightarrow> 'a list" where
  "sortInsert comparefn x [] = [x]"
| "sortInsert comparefn x (y # ys) =
     (if jgt (sortCompare comparefn x y) (Fin 0) then y # sortInsert comparefn x ys
      else x # y # ys)"

definition arraySort :: "('a \<Rightarrow> 'a \<Rightarrow> jsnum) \<Rightarrow> 'a list \<Rightarrow> 'a list" where
  "arraySort comparefn xs = foldr (sortInsert comparefn) xs []"

text \<open>
  The function itself. The parameter \<open>currentTime\<close> defaults to the time of the call in the
  source; here the caller always passes it. The body does not mention it.
\<close>

definition findMatches :: "RideOffer list \<Rightarrow> RideRequest \<Rightarrow> Date \<Rightarrow> error + Match list" where
  "findMatches offers request currentTime =
     (let timeMarginMinutes = (if rideNow request then Fin 5 else Fin 15);
          requestedTime = getTime (departureTime_req request);
          windowStart = jsub requestedTime (jmul (jmul timeMarginMinutes (Fin 60)) (Fin 1000));
          windowEnd = jadd requestedTime (jmul (jmul timeMarginMinutes (Fin 60)) (Fin 1000))
      in case matchLoop request windowStart windowEnd [] offers of
           Inl e \<Rightarrow> Inl e
         | Inr results \<Rightarrow> Inr (arraySort compareScore results))"

section \<open>Auxiliary notions\<close>

text \<open>
  The definitions of this section are not functions of the source. They name what the
  lemmas and theorems below talk about.
\<close>

subsection \<open>The guards of the loop body\<close>

text \<open>
  The body of the loop in \<open>findMatches\<close> is a chain of five guards, each followed by
  \<open>continue\<close>, and the computation of the score. Each predicate below is the negation of
  one guard, with the values it compares computed as the body computes them;
  \<open>windowTolerance\<close> is \<open>timeMarginMinutes * 60 * 1000\<close>, \<open>detourRejects\<close> is the condition
  of the detour guard, \<open>scoreOf\<close> is the score, \<open>survives\<close> says that no guard fires, and
  \<open>candidates\<close> is the array \<open>results\<close> before it is sorted. The lemma
  \<open>matchOffer_eq\<close> below proves that the body computes exactly this.
\<close>

definition windowTolerance :: "RideRequest \<Rightarrow> jsnum" where
  "windowTolerance request =
     jmul (jmul (if rideNow request then Fin 5 else Fin 15) (Fin 60)) (Fin 1000)"

definition passesCapacity :: "RideOffer \<Rightarrow> bool" where
  "passesCapacity offer = (\<not> jle (freeSeats offer) (Fin 0))"

definition inTimeWindow :: "RideRequest \<Rightarrow> RideOffer \<Rightarrow> bool" where
  "inTimeWindow request offer =
     (\<not> (jlt (getTime (departureTime offer))
              (jsub (getTime (departureTime_req request)) (windowTolerance request)) \<or>
         jgt (getTime (departureTime offer))
              (jadd (getTime (departureTime_req request)) (windowTolerance request))))"

definition withinWalk :: "RideRequest \<Rightarrow> RideOffer \<Rightarrow> bool" where
  "withinWalk request offer =
     (\<not> jgt (minDistanceToRoute (from_req request) (route offer)) (maxWalkMeters request) \<and>
      \<not> jgt (minDistanceToRoute (to_req request) (route offer)) (maxWalkMeters request))"

definition forwardOrder :: "RideRequest \<Rightarrow> RideOffer \<Rightarrow> bool" where
  "forwardOrder request offer =
     (case nearestWaypointIdx (from_req request) (route offer) of
        Inl e \<Rightarrow> False
      | Inr pickupIdx \<Rightarrow>
          (case nearestWaypointIdx (to_req request) (route offer) of
             Inl e \<Rightarrow> False
           | Inr dropoffIdx \<Rightarrow> isCorrectDirection pickupIdx dropoffIdx))"

definition detourMinutesOf :: "RideRequest \<Rightarrow> RideOffer \<Rightarrow> jsnum" where
  "detourMinutesOf request offer =
     detourDistanceToMinutes
       (estimateDetourDistance offer (from_req request) (to_req request)) (Fin 30)"

definition detourRejects :: "jsnum \<Rightarrow> jsnum \<Rightarrow> bool" where
  "detourRejects detourMinutes maxDetour =
     (jgt detourMinutes maxDetour \<or> jgt detourMinutes (Fin 5))"

definition scoreOf :: "RideRequest \<Rightarrow> RideOffer \<Rightarrow> jsnum" where
  "scoreOf request offer =
     jadd (jmul (detourMinutesOf request offer) (Fin 2))
          (jdiv (jadd (minDistanceToRoute (from_req request) (route offer))
                      (minDistanceToRoute (to_req request) (route offer))) (Fin 1000))"

definition survives :: "RideRequest \<Rightarrow> RideOffer \<Rightarrow> bool" where
  "survives request offer =
     (passesCapacity offer \<and> inTimeWindow request offer \<and> withinWalk request offer \<and>
      forwardOrder request offer \<and>
      \<not> detourRejects (detourMinutesOf request offer) (maxDetourMinutes offer))"

definition candidates :: "RideRequest \<Rightarrow> RideOffer list \<Rightarrow> Match list" where
  "candidates request offers =
     map (\<lambda>offer. (offer, scoreOf request offer)) (filter (survives request) offers)"

subsection \<open>The invariant of the nearest-waypoint search\<close>

text \<open>
  \<open>bestDistOf\<close> is the value of \<open>bestDist\<close> in the callback of \<open>reduce\<close>. \<open>nearestInv\<close>
  is the loop invariant after \<open>n\<close> waypoints: \<open>best\<close> is the sentinel and no waypoint so far
  has a distance that is a number, or the distance of waypoint \<open>best\<close> is a number, no
  waypoint so far is strictly closer, and every earlier one is strictly farther or has the
  distance NaN.
\<close>

definition bestDistOf :: "Coordinate \<Rightarrow> Coordinate list \<Rightarrow> int \<Rightarrow> jsnum" where
  "bestDistOf point rt bestIdx =
     (if bestIdx \<ge> 0 then haversineDistance point (rt ! nat bestIdx) else PInf)"

definition nearestInv :: "Coordinate \<Rightarrow> Coordinate list \<Rightarrow> int \<Rightarrow> nat \<Rightarrow> bool" where
  "nearestInv p rt best n \<longleftrightarrow>
     - 1 \<le> best \<and> best < int n \<and>
     (if best < 0 then (\<forall>j<n. haversineDistance p (rt ! j) = NaN)
      else haversineDistance p (rt ! nat best) \<noteq> NaN \<and>
           (\<forall>j<n. \<not> jlt (haversineDistance p (rt ! j)) (haversineDistance p (rt ! nat best))) \<and>
           (\<forall>j<nat best. haversineDistance p (rt ! j) = NaN \<or>
                jlt (haversineDistance p (rt ! nat best)) (haversineDistance p (rt ! j))))"

subsection \<open>Finite and valid coordinates\<close>

text \<open>
  A coordinate is finite when both components are finite numbers, and valid when the
  latitude lies between -90 and 90 and the longitude between -180 and 180. \<open>pt\<close> builds a
  finite coordinate. \<open>havAA\<close> and \<open>havAngle\<close> are the term \<open>aa\<close> and the central angle
  \<open>c\<close> of \<open>haversineDistance\<close> on finite coordinates, as real numbers.
\<close>

fun isFin :: "jsnum \<Rightarrow> bool" where
  "isFin (Fin x) = True"
| "isFin _ = False"

definition finOrNaN :: "jsnum \<Rightarrow> bool" where
  "finOrNaN a = (a = NaN \<or> isFin a)"

definition finiteCoord :: "Coordinate \<Rightarrow> bool" where
  "finiteCoord c = (isFin (lat c) \<and> isFin (lon c))"


definition pt :: "real \<Rightarrow> real \<Rightarrow> Coordinate" where
  "pt la lo = \<lparr>lat = Fin la, lon = Fin lo\<rparr>"

definition havAA :: "real \<Rightarrow> real \<Rightarrow> real \<Rightarrow> real \<Rightarrow> real" where
  "havAA la lo lb lob =
     sin ((lb - la) * pi / 180 / 2) * sin ((lb - la) * pi / 180 / 2) +
     cos (la * pi / 180) * cos (lb * pi / 180) * sin ((lob - lo) * pi / 180 / 2)
       * sin ((lob - lo) * pi / 180 / 2)"

definition havAngle :: "real \<Rightarrow> real" where
  "havAngle aa = 2 * (if aa < 1 then arctan (sqrt aa / sqrt (1 - aa)) else pi / 2)"

subsection \<open>Ordered results\<close>

text \<open>
  \<open>sortedByScore\<close> says that the scores of adjacent entries are related by \<open><=\<close>;
  \<open>realScore\<close> reads a finite score as a real number.
\<close>

fun realScore :: "Match \<Rightarrow> real" where
  "realScore (offer, Fin s) = s"
| "realScore (offer, _) = 0"

fun sortedByScore :: "Match list \<Rightarrow> bool" where
  "sortedByScore [] = True"
| "sortedByScore [a] = True"
| "sortedByScore (a # b # rest) = (jle (snd a) (snd b) \<and> sortedByScore (b # rest))"

subsection \<open>Example data\<close>

text \<open>
  A request along the equator, from longitude 0 to longitude 0.01 (about 1.1 km), and
  offers on the same stretch: one that matches it exactly, a round trip from further west
  whose detour is too long, one whose nearest waypoint is some 100 m from the pickup, and
  one whose departure latitude is NaN.
\<close>

definition demoRequest :: RideRequest where
  "demoRequest = \<lparr>requestId = ''RIDER-1'', from_req = pt 0 0, to_req = pt 0 (1 / 100),
     departureTime_req = ValidDate 0, maxWalkMeters = Fin 500, rideNow = True\<rparr>"

definition demoOffer :: RideOffer where
  "demoOffer = \<lparr>offerId = ''DRIVER-1'', departure = pt 0 0, destination = pt 0 (1 / 100),
     departureTime = ValidDate 0, maxDetourMinutes = Fin 5, freeSeats = Fin 2,
     route = [pt 0 0, pt 0 (1 / 100)]\<rparr>"

definition demoLoopOffer :: RideOffer where
  "demoLoopOffer = \<lparr>offerId = ''DRIVER-2'', departure = pt 0 (- 1 / 100),
     destination = pt 0 (- 1 / 100), departureTime = ValidDate 0, maxDetourMinutes = Fin 10,
     freeSeats = Fin 1,
     route = [pt 0 (- 1 / 100), pt 0 0, pt 0 (1 / 100), pt 0 (- 1 / 100)]\<rparr>"

definition demoWalkOffer :: RideOffer where
  "demoWalkOffer = \<lparr>offerId = ''DRIVER-3'', departure = pt 0 0, destination = pt 0 (1 / 100),
     departureTime = ValidDate 0, maxDetourMinutes = Fin 5, freeSeats = Fin 1,
     route = [pt 0 (1 / 1000), pt 0 (1 / 100)]\<rparr>"

definition demoNaNOffer :: RideOffer where
  "demoNaNOffer = \<lparr>offerId = ''DRIVER-4'', departure = \<lparr>lat = NaN, lon = Fin 0\<rparr>,
     destination = pt 0 (1 / 100), departureTime = ValidDate 0, maxDetourMinutes = Fin 5,
     freeSeats = Fin 1, route = [pt 0 0, pt 0 (1 / 100)]\<rparr>"

section \<open>Facts about numbers\<close>

lemma jlt_irrefl [simp]: "\<not> jlt a a"
  by (cases a) simp_all

lemma jlt_trans: "jlt a b \<Longrightarrow> jlt b c \<Longrightarrow> jlt a c"
  by (cases a; cases b; cases c) simp_all

lemma jlt_total: "a \<noteq> NaN \<Longrightarrow> b \<noteq> NaN \<Longrightarrow> jlt a b \<or> a = b \<or> jlt b a"
  by (cases a; cases b) auto

lemma jlt_NaN [simp]: "\<not> jlt a NaN" "\<not> jlt NaN a"
  by (cases a, simp_all)+

lemma jlt_PInf: "jlt a PInf \<longleftrightarrow> a \<noteq> NaN \<and> a \<noteq> PInf"
  by (cases a) simp_all

lemma jle_Fin_iff: "a \<noteq> NaN \<Longrightarrow> b \<noteq> NaN \<Longrightarrow> jle a b \<longleftrightarrow> \<not> jlt b a"
  by (cases a; cases b) simp_all

lemma jmul_NaN_right [simp]: "jmul a NaN = NaN"
  by (cases a) simp_all

lemma jadd_NaN_right [simp]: "jadd a NaN = NaN"
  by (cases a) simp_all

lemma isFin_iff: "isFin a \<longleftrightarrow> (\<exists>x. a = Fin x)"
  by (cases a) simp_all

lemma finOrNaN_simps [simp]: "finOrNaN NaN" "finOrNaN (Fin x)" "\<not> finOrNaN PInf" "\<not> finOrNaN NInf"
  by (simp_all add: finOrNaN_def)

lemma finOrNaN_jadd: "finOrNaN a \<Longrightarrow> finOrNaN b \<Longrightarrow> finOrNaN (jadd a b)"
  by (cases a; cases b) simp_all

lemma finOrNaN_jsub: "finOrNaN a \<Longrightarrow> finOrNaN b \<Longrightarrow> finOrNaN (jsub a b)"
  by (cases a; cases b) (simp_all add: jsub_def)

lemma finOrNaN_jmul: "finOrNaN a \<Longrightarrow> finOrNaN b \<Longrightarrow> finOrNaN (jmul a b)"
  by (cases a; cases b) simp_all

lemma finOrNaN_jdiv: "finOrNaN a \<Longrightarrow> c \<noteq> 0 \<Longrightarrow> finOrNaN (jdiv a (Fin c))"
  by (cases a) simp_all

lemma atan2_not_inf: "Math_atan2 y x \<noteq> PInf \<and> Math_atan2 y x \<noteq> NInf"
  by (cases y; cases x) simp_all

lemma atan2_cases: "Math_atan2 y x = NaN \<or> (\<exists>r. Math_atan2 y x = Fin r)"
  using atan2_not_inf [of y x] by (cases "Math_atan2 y x") simp_all

section \<open>The distance on finite and on other coordinates\<close>

text \<open>
  The distance is NaN or a finite number, never infinite, and it is NaN as soon as one
  component of a coordinate is not finite. These two facts do not depend on the arithmetic
  being exact, and they are all that the general theorems on the nearest waypoint and on
  \<open>findMatches\<close> below use of the distance. The value on finite coordinates, given by
  \<open>havAA\<close> and \<open>havAngle\<close>, is the value in exact arithmetic; it serves to evaluate the
  examples, and gives the symmetry of the distance and the distance zero from a valid
  coordinate to itself. In double precision the distance of finite coordinates can be NaN
  as well (a latitude of 1e308 overflows, and rounding can lift \<open>aa\<close> above 1 for antipodal
  points), and no theorem below says otherwise.
\<close>

lemma hav_cases: "haversineDistance a b = NaN \<or> (\<exists>d. haversineDistance a b = Fin d)"
proof -
  obtain y x where "haversineDistance a b = jmul (Fin 6371000) (jmul (Fin 2) (Math_atan2 y x))"
    by (simp add: haversineDistance_def Let_def)
  then show ?thesis using atan2_cases [of y x] by auto
qed

lemma hav_lt_PInf: "jlt (haversineDistance a b) PInf \<longleftrightarrow> haversineDistance a b \<noteq> NaN"
  using hav_cases [of a b] by (auto simp: jlt_PInf)

lemma finOrNaN_hav: "finOrNaN (haversineDistance a b)"
  using hav_cases [of a b] by auto

lemma sin_half_diff_sq: "sin ((B - A) / 2) * sin ((B - A) / 2) = (1 - cos A * cos B - sin A * sin B) / (2::real)"
proof -
  have "2 * ((B - A) / 2) = B - A" by simp
  then have "cos (B - A) = 1 - 2 * (sin ((B - A) / 2))\<^sup>2"
    using cos_double_sin [of "(B - A) / 2"] by metis
  moreover have "cos (B - A) = cos A * cos B + sin A * sin B"
    by (simp add: cos_diff mult.commute)
  ultimately show ?thesis by (simp add: power2_eq_square)
qed

lemma sin_sq_range: "0 \<le> sin (x::real) * sin x" "sin (x::real) * sin x \<le> 1"
proof -
  show "0 \<le> sin x * sin x" by simp
  have "sin x * sin x = (sin x)\<^sup>2" by (simp add: power2_eq_square)
  also have "\<dots> \<le> 1" using abs_sin_le_one [of x] by (simp add: abs_square_le_1)
  finally show "sin x * sin x \<le> 1" .
qed

lemma half_range:
  fixes c :: real
  shows "- 1 \<le> c \<Longrightarrow> 0 \<le> (1 + c) / 2" and "c \<le> 1 \<Longrightarrow> (1 + c) / 2 \<le> 1"
  by simp_all

lemma scale_between:
  fixes k t :: real
  assumes "0 \<le> t" "t \<le> 1"
  shows "k \<le> 0 \<Longrightarrow> k \<le> k * t" and "k \<le> 0 \<Longrightarrow> k * t \<le> 0"
    and "0 \<le> k \<Longrightarrow> k * t \<le> k" and "0 \<le> k \<Longrightarrow> 0 \<le> k * t"
proof -
  show "k \<le> k * t" if "k \<le> 0"
  proof -
    have "0 \<le> (- k) * (1 - t)" using that assms by (intro mult_nonneg_nonneg) simp_all
    then show ?thesis by (simp add: algebra_simps)
  qed
  show "k * t \<le> 0" if "k \<le> 0"
    using that assms by (simp add: mult_le_0_iff)
  show "k * t \<le> k" if "0 \<le> k"
  proof -
    have "0 \<le> k * (1 - t)" using that assms by (intro mult_nonneg_nonneg) simp_all
    then show ?thesis by (simp add: algebra_simps)
  qed
  show "0 \<le> k * t" if "0 \<le> k"
    using that assms by simp
qed

lemma hav_core_range:
  fixes A B t :: real
  assumes t: "0 \<le> t" "t \<le> 1"
  shows "0 \<le> sin ((B - A) / 2) * sin ((B - A) / 2) + cos A * cos B * t"
    and "sin ((B - A) / 2) * sin ((B - A) / 2) + cos A * cos B * t \<le> 1"
proof -
  let ?s = "sin ((B - A) / 2) * sin ((B - A) / 2)"
  have s0: "0 \<le> ?s" by simp
  have s1: "?s \<le> 1" by (rule sin_sq_range)
  have e: "?s + cos A * cos B = (1 + cos (A + B)) / 2"
    by (simp add: sin_half_diff_sq cos_add field_simps)
  have c0: "0 \<le> ?s + cos A * cos B" unfolding e by (rule half_range(1)) simp
  have c1: "?s + cos A * cos B \<le> 1" unfolding e by (rule half_range(2)) simp
  show "0 \<le> ?s + cos A * cos B * t"
  proof (cases "0 \<le> cos A * cos B")
    case True
    then have "0 \<le> cos A * cos B * t" using t by (rule scale_between(4) [rotated 2])
    with s0 show ?thesis by linarith
  next
    case False
    then have "cos A * cos B \<le> 0" by simp
    then have "cos A * cos B * t \<ge> cos A * cos B" using t by (rule scale_between(1) [rotated 2])
    with c0 show ?thesis by linarith
  qed
  show "?s + cos A * cos B * t \<le> 1"
  proof (cases "0 \<le> cos A * cos B")
    case True
    then have "cos A * cos B * t \<le> cos A * cos B" using t by (rule scale_between(3) [rotated 2])
    with c1 show ?thesis by linarith
  next
    case False
    then have "cos A * cos B \<le> 0" by simp
    then have "cos A * cos B * t \<le> 0" using t by (rule scale_between(2) [rotated 2])
    with s1 show ?thesis by linarith
  qed
qed

lemma havAA_range: "0 \<le> havAA la lo lb lob" "havAA la lo lb lob \<le> 1"
proof -
  let ?t = "sin ((lob - lo) * pi / 180 / 2) * sin ((lob - lo) * pi / 180 / 2)"
  have e: "havAA la lo lb lob =
     sin ((lb * pi / 180 - la * pi / 180) / 2) * sin ((lb * pi / 180 - la * pi / 180) / 2)
       + cos (la * pi / 180) * cos (lb * pi / 180) * ?t"
    by (simp add: havAA_def algebra_simps diff_divide_distrib)
  show "0 \<le> havAA la lo lb lob" unfolding e
    by (rule hav_core_range sin_sq_range)+
  show "havAA la lo lb lob \<le> 1" unfolding e
    by (rule hav_core_range sin_sq_range)+
qed

lemma hav_Fin:
  assumes "lat a = Fin la" "lon a = Fin lo" "lat b = Fin lb" "lon b = Fin lob"
  shows "haversineDistance a b = Fin (6371000 * havAngle (havAA la lo lb lob))"
proof -
  let ?aa = "havAA la lo lb lob"
  have aa: "jadd (jmul (Math_sin (jdiv (jdiv (jmul (jsub (lat b) (lat a)) Math_PI) (Fin 180)) (Fin 2)))
                       (Math_sin (jdiv (jdiv (jmul (jsub (lat b) (lat a)) Math_PI) (Fin 180)) (Fin 2))))
          (jmul (jmul (jmul (Math_cos (jdiv (jmul (lat a) Math_PI) (Fin 180)))
                            (Math_cos (jdiv (jmul (lat b) Math_PI) (Fin 180))))
                      (Math_sin (jdiv (jdiv (jmul (jsub (lon b) (lon a)) Math_PI) (Fin 180)) (Fin 2))))
                (Math_sin (jdiv (jdiv (jmul (jsub (lon b) (lon a)) Math_PI) (Fin 180)) (Fin 2)))) = Fin ?aa"
    using assms by (simp add: havAA_def jsub_def Math_PI_def)
  have r: "0 \<le> ?aa" "?aa \<le> 1" by (rule havAA_range)+
  have "Math_atan2 (Math_sqrt (Fin ?aa)) (Math_sqrt (jsub (Fin 1) (Fin ?aa))) = Fin (havAngle ?aa / 2)"
  proof (cases "?aa < 1")
    case True
    with r show ?thesis by (simp add: jsub_def havAngle_def)
  next
    case False
    with r have "?aa = 1" by simp
    then show ?thesis by (simp add: jsub_def havAngle_def)
  qed
  then show ?thesis
    unfolding haversineDistance_def Let_def aa by simp
qed

lemma sin_chain_NaN:
  "\<not> isFin x \<or> \<not> isFin y \<Longrightarrow>
   Math_sin (jdiv (jdiv (jmul (jsub y x) Math_PI) (Fin 180)) (Fin 2)) = NaN"
  by (cases x; cases y) (simp_all add: jsub_def Math_PI_def)

lemma cos_chain_NaN:
  "\<not> isFin x \<Longrightarrow> Math_cos (jdiv (jmul x Math_PI) (Fin 180)) = NaN"
  by (cases x) (simp_all add: Math_PI_def)

lemma hav_nonfinite:
  assumes "\<not> finiteCoord a \<or> \<not> finiteCoord b"
  shows "haversineDistance a b = NaN"
proof -
  consider "\<not> isFin (lat a) \<or> \<not> isFin (lat b)" | "\<not> isFin (lon a) \<or> \<not> isFin (lon b)"
    using assms by (auto simp: finiteCoord_def)
  then have "jadd (jmul (Math_sin (jdiv (jdiv (jmul (jsub (lat b) (lat a)) Math_PI) (Fin 180)) (Fin 2)))
                       (Math_sin (jdiv (jdiv (jmul (jsub (lat b) (lat a)) Math_PI) (Fin 180)) (Fin 2))))
          (jmul (jmul (jmul (Math_cos (jdiv (jmul (lat a) Math_PI) (Fin 180)))
                            (Math_cos (jdiv (jmul (lat b) Math_PI) (Fin 180))))
                      (Math_sin (jdiv (jdiv (jmul (jsub (lon b) (lon a)) Math_PI) (Fin 180)) (Fin 2))))
                (Math_sin (jdiv (jdiv (jmul (jsub (lon b) (lon a)) Math_PI) (Fin 180)) (Fin 2)))) = NaN"
  proof cases
    case 1
    then show ?thesis by (simp add: sin_chain_NaN)
  next
    case 2
    then show ?thesis by (simp add: sin_chain_NaN)
  qed
  then show ?thesis
    unfolding haversineDistance_def Let_def by simp
qed







text \<open>
  Along the equator the distance is the difference of the longitudes, in radians, times
  the radius.
\<close>

lemma havAngle_equator:
  fixes t :: real
  assumes "\<bar>t\<bar> \<le> pi / 2"
  shows "havAngle (sin t * sin t) = 2 * \<bar>t\<bar>"
proof (cases "\<bar>t\<bar> = pi / 2")
  case True
  then have "t = pi / 2 \<or> t = - (pi / 2)" by linarith
  then have "sin t * sin t = 1"
  proof
    assume "t = pi / 2" then show ?thesis by (simp only: sin_pi_half mult_1)
  next
    assume "t = - (pi / 2)" then show ?thesis by simp
  qed
  with True show ?thesis by (simp add: havAngle_def)
next
  case False
  with assms have lt: "- (pi / 2) < t" "t < pi / 2" by linarith+
  then have c: "0 < cos t" by (simp add: cos_gt_zero_pi)
  have s1: "sin t * sin t = 1 - cos t * cos t"
    using sin_cos_squared_add [of t] by (simp add: power2_eq_square algebra_simps)
  have "cos t * cos t > 0" using c by simp
  then have lt1: "sin t * sin t < 1" using s1 by linarith
  have "1 - sin t * sin t = cos t * cos t" using s1 by simp
  then have sq: "sqrt (1 - sin t * sin t) = cos t" using c by simp
  have "sqrt (sin t * sin t) / cos t = \<bar>tan t\<bar>"
    using c by (simp add: tan_def abs_divide)
  also have "\<dots> = tan \<bar>t\<bar>"
  proof (cases "t < 0")
    case True
    with lt have "tan t < 0" by (simp add: tan_less_zero)
    with True show ?thesis by simp
  next
    case False
    then have "0 \<le> tan t"
    proof (cases "t = 0")
      case True then show ?thesis by simp
    next
      case False
      with \<open>\<not> t < 0\<close> lt have "0 < tan t" by (simp add: tan_gt_zero)
      then show ?thesis by simp
    qed
    with False show ?thesis by simp
  qed
  finally have "arctan (sqrt (sin t * sin t) / cos t) = \<bar>t\<bar>"
    using lt by (simp add: arctan_tan abs_if)
  with lt1 sq show ?thesis by (simp add: havAngle_def)
qed

lemma hav_equator:
  assumes "\<bar>y - x\<bar> \<le> 180"
  shows "haversineDistance (pt 0 x) (pt 0 y) = Fin (6371000 * pi / 180 * \<bar>y - x\<bar>)"
proof -
  let ?t = "(y - x) * pi / 180 / 2"
  have aa: "havAA 0 x 0 y = sin ?t * sin ?t" by (simp add: havAA_def)
  have "\<bar>?t\<bar> = \<bar>y - x\<bar> * pi / 360" by (simp add: abs_mult)
  also have "\<dots> \<le> 180 * pi / 360" using assms by (simp add: mult_right_mono)
  finally have t: "\<bar>?t\<bar> \<le> pi / 2" by simp
  have "haversineDistance (pt 0 x) (pt 0 y) = Fin (6371000 * havAngle (havAA 0 x 0 y))"
    by (rule hav_Fin) (simp_all add: pt_def)
  also have "havAngle (havAA 0 x 0 y) = 2 * \<bar>?t\<bar>"
    unfolding aa by (rule havAngle_equator [OF t])
  finally show ?thesis by (simp add: abs_mult)
qed

section \<open>The nearest waypoint is found without error\<close>

text \<open>
  The index that the callback reads, \<open>bestIdx\<close>, is the sentinel or an index seen
  before, so the array read never yields \<open>undefined\<close> and the search returns. The search
  for the index and \<open>minDistanceToRoute\<close> run in step: the minimum is the distance of the
  waypoint found.
\<close>

lemma nearestStep_in_range:
  assumes "- 1 \<le> best" "best < int (length rt)"
  shows "nearestStep p rt best node idx =
           Inr (if jlt (haversineDistance p node) (bestDistOf p rt best) then idx else best)"
  using assms by (simp add: nearestStep_def arrayGet_def bestDistOf_def Let_def)

lemma nearestInv_step:
  assumes inv: "nearestInv p rt best n" and n: "n < length rt"
  shows "nearestInv p rt
           (if jlt (haversineDistance p (rt ! n)) (bestDistOf p rt best) then int n else best) (Suc n)"
proof (cases "best < 0")
  case True
  with inv have all: "\<forall>j<n. haversineDistance p (rt ! j) = NaN" and b: "best = - 1"
    by (auto simp: nearestInv_def)
  show ?thesis
  proof (cases "haversineDistance p (rt ! n) = NaN")
    case True
    with all b show ?thesis
      by (auto simp: nearestInv_def bestDistOf_def less_Suc_eq)
  next
    case False
    with all b show ?thesis
      by (auto simp: nearestInv_def bestDistOf_def less_Suc_eq hav_lt_PInf)
  qed
next
  case False
  let ?d = "\<lambda>j. haversineDistance p (rt ! j)"
  from False inv have b: "0 \<le> best" "best < int n" and nn: "?d (nat best) \<noteq> NaN"
    and mn: "\<forall>j<n. \<not> jlt (?d j) (?d (nat best))"
    and fst: "\<forall>j<nat best. ?d j = NaN \<or> jlt (?d (nat best)) (?d j)"
    by (auto simp: nearestInv_def)
  show ?thesis
  proof (cases "jlt (?d n) (?d (nat best))")
    case True
    then have dn: "?d n \<noteq> NaN" by auto
    have 1: "\<not> jlt (?d j) (?d n)" if "j < Suc n" for j
    proof (cases "j = n")
      case True then show ?thesis by simp
    next
      case False
      with that have "j < n" by simp
      with mn have "\<not> jlt (?d j) (?d (nat best))" by simp
      with True show ?thesis using jlt_trans by blast
    qed
    have 2: "?d j = NaN \<or> jlt (?d n) (?d j)" if "j < n" for j
    proof (cases "?d j = NaN")
      case True then show ?thesis by simp
    next
      case False
      from that mn have nl: "\<not> jlt (?d j) (?d (nat best))" by simp
      with jlt_total [OF False nn] have "?d j = ?d (nat best) \<or> jlt (?d (nat best)) (?d j)" by blast
      with True show ?thesis using jlt_trans by auto
    qed
    from True b dn 1 2 show ?thesis
      by (simp add: nearestInv_def bestDistOf_def)
  next
    case False
    with b nn mn fst show ?thesis
      by (auto simp: nearestInv_def bestDistOf_def less_Suc_eq)
  qed
qed

lemma reduceLoop_nearest:
  assumes "nearestInv p rt best (length pre)" "rt = pre @ xs"
    "m = bestDistOf p rt best"
  shows "\<exists>r. reduceLoop (nearestStep p rt) best (int (length pre)) xs = Inr r \<and>
             nearestInv p rt r (length rt) \<and>
             minDistLoop p m xs = bestDistOf p rt r"
  using assms
proof (induction xs arbitrary: best pre m)
  case Nil
  then show ?case by simp
next
  case (Cons x xs)
  let ?b = "if jlt (haversineDistance p x) (bestDistOf p rt best) then int (length pre) else best"
  from Cons.prems have rng: "- 1 \<le> best" "best < int (length rt)"
    by (auto simp: nearestInv_def)
  from Cons.prems have x: "rt ! length pre = x" and lt: "length pre < length rt" by auto
  have step: "nearestStep p rt best x (int (length pre)) = Inr ?b"
    using nearestStep_in_range [OF rng] by simp
  have inv': "nearestInv p rt ?b (length (pre @ [x]))"
    using nearestInv_step [OF Cons.prems(1) lt] x by simp
  have m': "(if jlt (haversineDistance p x) m then haversineDistance p x else m) = bestDistOf p rt ?b"
    using Cons.prems(3) x by (simp add: bestDistOf_def)
  have rt': "rt = (pre @ [x]) @ xs" using Cons.prems(2) by simp
  from Cons.IH [OF inv' rt' m'] step
  show ?case by (simp add: Let_def add.commute)
qed

lemma nearest_total:
  "\<exists>r. nearestWaypointIdx p rt = Inr r \<and> nearestInv p rt r (length rt) \<and>
       minDistanceToRoute p rt = bestDistOf p rt r"
  using reduceLoop_nearest [of p rt "- 1" "[]" rt PInf]
  by (simp add: nearestWaypointIdx_def minDistanceToRoute_def nearestInv_def bestDistOf_def)

lemma nearest_range:
  "\<exists>r. nearestWaypointIdx p rt = Inr r \<and> - 1 \<le> r \<and> r < int (length rt)"
  using nearest_total [of p rt] by (auto simp: nearestInv_def)

lemma nearest_single:
  "nearestWaypointIdx p [w] = Inr (if haversineDistance p w = NaN then - 1 else 0)"
  by (simp add: nearestWaypointIdx_def nearestStep_def hav_lt_PInf)

lemma nearest_sentinel_iff:
  assumes "nearestInv p rt r (length rt)"
  shows "r = - 1 \<longleftrightarrow> (\<forall>w\<in>set rt. haversineDistance p w = NaN)"
proof
  assume "r = - 1"
  with assms have "\<forall>j<length rt. haversineDistance p (rt ! j) = NaN"
    by (simp add: nearestInv_def)
  then show "\<forall>w\<in>set rt. haversineDistance p w = NaN"
    by (auto simp: in_set_conv_nth)
next
  assume a: "\<forall>w\<in>set rt. haversineDistance p w = NaN"
  show "r = - 1"
  proof (rule ccontr)
    assume "r \<noteq> - 1"
    with assms have "0 \<le> r" "r < int (length rt)" "haversineDistance p (rt ! nat r) \<noteq> NaN"
      by (auto simp: nearestInv_def split: if_splits)
    moreover then have "rt ! nat r \<in> set rt" by simp
    ultimately show False using a by blast
  qed
qed

section \<open>The loop body as a conjunction of guards\<close>

lemma matchOffer_eq:
  "matchOffer request (jsub (getTime (departureTime_req request)) (windowTolerance request))
      (jadd (getTime (departureTime_req request)) (windowTolerance request)) offer =
   Inr (if survives request offer then Some (offer, scoreOf request offer) else None)"
proof -
  obtain p where p: "nearestWaypointIdx (from_req request) (route offer) = Inr p"
    using nearest_total by blast
  obtain d where d: "nearestWaypointIdx (to_req request) (route offer) = Inr d"
    using nearest_total by blast
  show ?thesis
    by (simp add: matchOffer_def survives_def passesCapacity_def inTimeWindow_def
        withinWalk_def forwardOrder_def detourRejects_def scoreOf_def detourMinutesOf_def
        Let_def p d)
qed

lemma matchLoop_eq:
  "matchLoop request (jsub (getTime (departureTime_req request)) (windowTolerance request))
      (jadd (getTime (departureTime_req request)) (windowTolerance request)) results offers =
   Inr (results @ candidates request offers)"
  by (induction offers arbitrary: results) (simp_all add: matchOffer_eq candidates_def)

lemma findMatches_eq:
  "findMatches offers request currentTime =
     Inr (arraySort compareScore (candidates request offers))"
proof -
  have w: "jmul (jmul (if rideNow request then Fin 5 else Fin 15) (Fin 60)) (Fin 1000) =
           windowTolerance request"
    by (simp add: windowTolerance_def)
  show ?thesis
    unfolding findMatches_def Let_def w matchLoop_eq by simp
qed

lemma inTimeWindow_valid:
  assumes "departureTime offer = ValidDate t" "departureTime_req request = ValidDate T"
  shows "inTimeWindow request offer \<longleftrightarrow>
           (if rideNow request then T - 300000 \<le> t \<and> t \<le> T + 300000
            else T - 900000 \<le> t \<and> t \<le> T + 900000)"
proof -
  have "real_of_int t < real_of_int T - 300000 \<longleftrightarrow> t < T - 300000"
    "real_of_int T + 300000 < real_of_int t \<longleftrightarrow> T + 300000 < t"
    "real_of_int t < real_of_int T - 900000 \<longleftrightarrow> t < T - 900000"
    "real_of_int T + 900000 < real_of_int t \<longleftrightarrow> T + 900000 < t"
    by linarith+
  then show ?thesis
    using assms by (auto simp: inTimeWindow_def windowTolerance_def jsub_def jgt_def)
qed

lemma inTimeWindow_invalid:
  assumes "departureTime offer = InvalidDate \<or> departureTime_req request = InvalidDate"
  shows "inTimeWindow request offer"
  using assms by (auto simp: inTimeWindow_def windowTolerance_def jsub_def jgt_def)

lemma short_route_not_forward:
  assumes "length (route offer) < 2"
  shows "\<not> forwardOrder request offer"
proof -
  obtain p where p: "nearestWaypointIdx (from_req request) (route offer) = Inr p" "p < int (length (route offer))"
    using nearest_range by blast
  obtain d where d: "nearestWaypointIdx (to_req request) (route offer) = Inr d" "d < int (length (route offer))"
    using nearest_range by blast
  from p d assms show ?thesis
    by (auto simp: forwardOrder_def isCorrectDirection_def)
qed

text \<open>The score of a survivor is a finite number or NaN.\<close>

lemma finOrNaN_detour: "finOrNaN (detourMinutesOf request offer)"
proof -
  have "finOrNaN (estimateDetourDistance offer (from_req request) (to_req request))"
    unfolding estimateDetourDistance_def Let_def
    by (intro finOrNaN_jsub finOrNaN_jadd finOrNaN_hav)
  then show ?thesis
    unfolding detourMinutesOf_def detourDistanceToMinutes_def Let_def
    by (simp add: finOrNaN_jdiv)
qed

lemma forward_min_Fin:
  assumes "forwardOrder request offer"
  shows "isFin (minDistanceToRoute (from_req request) (route offer))"
    and "isFin (minDistanceToRoute (to_req request) (route offer))"
proof -
  let ?rt = "route offer"
  obtain p where p: "nearestWaypointIdx (from_req request) ?rt = Inr p"
    "nearestInv (from_req request) ?rt p (length ?rt)"
    "minDistanceToRoute (from_req request) ?rt = bestDistOf (from_req request) ?rt p"
    using nearest_total by blast
  obtain d where d: "nearestWaypointIdx (to_req request) ?rt = Inr d"
    "nearestInv (to_req request) ?rt d (length ?rt)"
    "minDistanceToRoute (to_req request) ?rt = bestDistOf (to_req request) ?rt d"
    using nearest_total by blast
  from assms p(1) d(1) have pd: "0 \<le> p" "0 \<le> d"
    by (simp_all add: forwardOrder_def isCorrectDirection_def)
  from pd p(2) have np: "haversineDistance (from_req request) (?rt ! nat p) \<noteq> NaN"
    by (simp add: nearestInv_def)
  from pd d(2) have nd: "haversineDistance (to_req request) (?rt ! nat d) \<noteq> NaN"
    by (simp add: nearestInv_def)
  from np hav_cases [of "from_req request" "?rt ! nat p"] pd p(3)
  show "isFin (minDistanceToRoute (from_req request) ?rt)"
    by (auto simp: bestDistOf_def)
  from nd hav_cases [of "to_req request" "?rt ! nat d"] pd d(3)
  show "isFin (minDistanceToRoute (to_req request) ?rt)"
    by (auto simp: bestDistOf_def)
qed

lemma survivor_score_cases:
  assumes "survives request offer"
  shows "finOrNaN (scoreOf request offer)"
proof -
  from assms have f: "forwardOrder request offer" by (simp add: survives_def)
  from forward_min_Fin(1,2) [OF f] obtain x y where
    "minDistanceToRoute (from_req request) (route offer) = Fin x"
    "minDistanceToRoute (to_req request) (route offer) = Fin y"
    by (auto simp: isFin_iff)
  then show ?thesis
    unfolding scoreOf_def using finOrNaN_detour [of request offer]
    by (auto intro!: finOrNaN_jadd finOrNaN_jmul)
qed

lemma candidates_append:
  "candidates request (xs @ ys) = candidates request xs @ candidates request ys"
  by (simp add: candidates_def)

lemma candidates_Cons:
  "candidates request (m # ys) =
     (if survives request m then (m, scoreOf request m) # candidates request ys
      else candidates request ys)"
  by (simp add: candidates_def)

lemma candidates_scores:
  "r \<in> set (candidates request offers) \<Longrightarrow>
     survives request (fst r) \<and> snd r = scoreOf request (fst r) \<and> fst r \<in> set offers"
  by (auto simp: candidates_def)

lemma candidates_finOrNaN:
  "r \<in> set (candidates request offers) \<Longrightarrow> snd r \<noteq> NaN \<Longrightarrow> isFin (snd r)"
  using candidates_scores [of r request offers] survivor_score_cases [of request "fst r"]
  by (auto simp: finOrNaN_def)

section \<open>The sort\<close>

text \<open>
  The sort returns a permutation of its input. When all scores are finite it is the stable
  sort by score of the library, \<open>sort_key\<close>; removing one element from the input of that
  sort removes it from the output and leaves the rest as it is.
\<close>

lemma set_sortInsert: "set (sortInsert c x ys) = insert x (set ys)"
  by (induction ys) auto

lemma set_arraySort: "set (arraySort c xs) = set xs"
  by (induction xs) (simp_all add: arraySort_def set_sortInsert)


lemma arraySort_Cons: "arraySort c (x # xs) = sortInsert c x (arraySort c xs)"
  by (simp add: arraySort_def)

lemma sortInsert_insort:
  assumes "isFin (snd x)" "\<forall>r\<in>set ys. isFin (snd r)"
  shows "sortInsert compareScore x ys = insort_key realScore x ys"
  using assms
proof (induction ys)
  case Nil
  then show ?case by simp
next
  case (Cons y ys)
  obtain ox sx where x: "x = (ox, Fin sx)" using Cons.prems(1) by (cases x) (auto simp: isFin_iff)
  obtain oy sy where y: "y = (oy, Fin sy)" using Cons.prems(2) by (cases y) (auto simp: isFin_iff)
  have "jgt (sortCompare compareScore x y) (Fin 0) \<longleftrightarrow> \<not> realScore x \<le> realScore y"
    by (auto simp: x y sortCompare_def compareScore_def jsub_def jgt_def Let_def)
  with Cons show ?case by simp
qed

lemma arraySort_sort_key:
  assumes "\<forall>r\<in>set xs. isFin (snd r)"
  shows "arraySort compareScore xs = sort_key realScore xs"
  using assms
proof (induction xs)
  case Nil
  then show ?case by (simp add: arraySort_def)
next
  case (Cons x xs)
  then have "arraySort compareScore xs = sort_key realScore xs" by simp
  moreover have "\<forall>r\<in>set (sort_key realScore xs). isFin (snd r)" using Cons.prems by simp
  ultimately show ?case using Cons.prems
    by (simp add: arraySort_Cons sortInsert_insort)
qed

lemma sortedByScore_real:
  assumes "\<forall>r\<in>set xs. isFin (snd r)" "sorted (map realScore xs)"
  shows "sortedByScore xs"
  using assms
proof (induction xs rule: sortedByScore.induct)
  case (3 a b rest)
  obtain oa sa where a: "a = (oa, Fin sa)" using "3.prems"(1) by (cases a) (auto simp: isFin_iff)
  obtain ob sb where b: "b = (ob, Fin sb)" using "3.prems"(1) by (cases b) (auto simp: isFin_iff)
  from 3 show ?case by (simp add: a b)
qed simp_all

lemma insort_key_split:
  "\<exists>us vs. insort_key f x zs = us @ x # vs \<and> zs = us @ vs"
proof (induction zs)
  case Nil
  then show ?case by simp
next
  case (Cons z zs)
  show ?case
  proof (cases "f x \<le> f z")
    case True
    then have "insort_key f x (z # zs) = [] @ x # (z # zs) \<and> z # zs = [] @ (z # zs)" by simp
    then show ?thesis by blast
  next
    case False
    from Cons obtain us vs where "insort_key f x zs = us @ x # vs" "zs = us @ vs" by blast
    with False have "insort_key f x (z # zs) = (z # us) @ x # vs \<and> z # zs = (z # us) @ vs" by simp
    then show ?thesis by blast
  qed
qed

lemma insort_key_around:
  assumes "sorted (map f (us @ m # vs))"
  shows "\<exists>us' vs'. insort_key f a (us @ m # vs) = us' @ m # vs' \<and>
                   insort_key f a (us @ vs) = us' @ vs'"
  using assms
proof (induction us)
  case Nil
  show ?case
  proof (cases "f a \<le> f m")
    case True
    with Nil have "\<forall>v\<in>set vs. f a \<le> f v" by auto
    then have "insort_key f a vs = a # vs" by (cases vs) auto
    with True have "insort_key f a ([] @ m # vs) = [a] @ m # vs \<and> insort_key f a ([] @ vs) = [a] @ vs"
      by simp
    then show ?thesis by blast
  next
    case False
    then have "insort_key f a ([] @ m # vs) = [] @ m # insort_key f a vs \<and>
               insort_key f a ([] @ vs) = [] @ insort_key f a vs" by simp
    then show ?thesis by blast
  qed
next
  case (Cons u us)
  show ?case
  proof (cases "f a \<le> f u")
    case True
    then have "insort_key f a ((u # us) @ m # vs) = (a # u # us) @ m # vs \<and>
               insort_key f a ((u # us) @ vs) = (a # u # us) @ vs" by simp
    then show ?thesis by blast
  next
    case False
    from Cons have "sorted (map f (us @ m # vs))" by simp
    with Cons.IH obtain us' vs' where "insort_key f a (us @ m # vs) = us' @ m # vs'"
      "insort_key f a (us @ vs) = us' @ vs'" by blast
    with False have "insort_key f a ((u # us) @ m # vs) = (u # us') @ m # vs' \<and>
               insort_key f a ((u # us) @ vs) = (u # us') @ vs'" by simp
    then show ?thesis by blast
  qed
qed

lemma sort_key_remove:
  "\<exists>us vs. sort_key f (xs @ m # ys) = us @ m # vs \<and> sort_key f (xs @ ys) = us @ vs"
proof (induction xs)
  case Nil
  from insort_key_split [of f m "sort_key f ys"] show ?case by auto
next
  case (Cons x xs)
  then obtain us vs where e: "sort_key f (xs @ m # ys) = us @ m # vs" "sort_key f (xs @ ys) = us @ vs"
    by blast
  have "sorted (map f (sort_key f (xs @ m # ys)))" by (rule sorted_sort_key)
  with e have "sorted (map f (us @ m # vs))" by simp
  from insort_key_around [OF this, of x] e show ?case by simp
qed

lemma offers_in_results:
  "fst ` set (arraySort compareScore (candidates request offers)) = {offer \<in> set offers. survives request offer}"
  by (auto simp: set_arraySort candidates_def image_iff)

lemma sorted_results:
  assumes "\<forall>r\<in>set (candidates request offers). snd r \<noteq> NaN"
  shows "arraySort compareScore (candidates request offers) =
           sort_key realScore (candidates request offers)"
    and "sortedByScore (arraySort compareScore (candidates request offers))"
proof -
  have f: "\<forall>r\<in>set (candidates request offers). isFin (snd r)"
    using assms candidates_finOrNaN by blast
  then show e: "arraySort compareScore (candidates request offers) =
           sort_key realScore (candidates request offers)"
    by (rule arraySort_sort_key)
  show "sortedByScore (arraySort compareScore (candidates request offers))"
    unfolding e using f by (intro sortedByScore_real) simp_all
qed

section \<open>The example data, evaluated\<close>

lemmas eval_defs = minDistanceToRoute_def nearestWaypointIdx_def nearestStep_def arrayGet_def
  estimateDetourDistance_def detourDistanceToMinutes_def isCorrectDirection_def
  jgt_def jsub_def Let_def hav_equator

lemma demoRequest_fields:
  "rideNow demoRequest" "departureTime_req demoRequest = ValidDate 0"
  "from_req demoRequest = pt 0 0" "to_req demoRequest = pt 0 (1 / 100)"
  "maxWalkMeters demoRequest = Fin 500"
  by (simp_all add: demoRequest_def)

lemma demo_window:
  "inTimeWindow demoRequest (demoOffer\<lparr>departureTime := ValidDate t\<rparr>) \<longleftrightarrow>
     - 300000 \<le> t \<and> t \<le> 300000"
  using inTimeWindow_valid [of "demoOffer\<lparr>departureTime := ValidDate t\<rparr>" t demoRequest 0]
  by (simp add: demoRequest_def)

lemma demo_min_from: "minDistanceToRoute (pt 0 0) [pt 0 0, pt 0 (1 / 100)] = Fin 0"
  by (simp add: eval_defs)

lemma demo_min_to: "minDistanceToRoute (pt 0 (1/100)) [pt 0 0, pt 0 (1 / 100)] = Fin 0"
  by (simp add: eval_defs)

lemma demo_idx_from: "nearestWaypointIdx (pt 0 0) [pt 0 0, pt 0 (1 / 100)] = Inr 0"
  by (simp add: eval_defs)

lemma demo_idx_to: "nearestWaypointIdx (pt 0 (1/100)) [pt 0 0, pt 0 (1 / 100)] = Inr 1"
  by (simp add: eval_defs)

lemma demo_survives:
  "survives demoRequest (demoOffer\<lparr>departureTime := ValidDate t\<rparr>) \<longleftrightarrow> - 300000 \<le> t \<and> t \<le> 300000"
  unfolding survives_def demo_window
  by (simp add: demoRequest_def demoOffer_def passesCapacity_def
      withinWalk_def forwardOrder_def detourMinutesOf_def detourRejects_def
      demo_min_from demo_min_to demo_idx_from demo_idx_to eval_defs)

lemma demo_score:
  "scoreOf demoRequest (demoOffer\<lparr>departureTime := ValidDate t\<rparr>) = Fin 0"
  by (simp add: scoreOf_def demoRequest_def demoOffer_def detourMinutesOf_def
      demo_min_from demo_min_to eval_defs)

lemma demo_filters:
  "passesCapacity (demoOffer\<lparr>departureTime := d\<rparr>)"
  "withinWalk demoRequest (demoOffer\<lparr>departureTime := d\<rparr>)"
  "forwardOrder demoRequest (demoOffer\<lparr>departureTime := d\<rparr>)"
  "\<not> detourRejects (detourMinutesOf demoRequest (demoOffer\<lparr>departureTime := d\<rparr>))
       (maxDetourMinutes demoOffer)"
  by (simp_all add: demoRequest_def demoOffer_def passesCapacity_def
      withinWalk_def forwardOrder_def detourMinutesOf_def detourRejects_def
      demo_min_from demo_min_to demo_idx_from demo_idx_to eval_defs)

lemma demo_survives0: "survives demoRequest demoOffer"
  using demo_survives [of 0] by (simp add: demoOffer_def)

lemma demo_score0: "scoreOf demoRequest demoOffer = Fin 0"
  using demo_score [of 0] by (simp add: demoOffer_def)

lemma demo_empty_route: "\<not> survives demoRequest (demoOffer\<lparr>route := []\<rparr>)"
  using short_route_not_forward [of "demoOffer\<lparr>route := []\<rparr>" demoRequest]
  by (simp add: survives_def)

lemma demo_invalid_date:
  "survives demoRequest (demoOffer\<lparr>departureTime := InvalidDate\<rparr>)"
  "scoreOf demoRequest (demoOffer\<lparr>departureTime := InvalidDate\<rparr>) = Fin 0"
  by (simp_all add: survives_def scoreOf_def demoRequest_def demoOffer_def passesCapacity_def inTimeWindow_def
      windowTolerance_def withinWalk_def forwardOrder_def detourMinutesOf_def detourRejects_def
      demo_min_from demo_min_to demo_idx_from demo_idx_to eval_defs)

lemma demoLoop_filters:
  "passesCapacity demoLoopOffer"
  "inTimeWindow demoRequest demoLoopOffer"
  "withinWalk demoRequest demoLoopOffer"
  "forwardOrder demoRequest demoLoopOffer"
  by (simp_all add: demoRequest_def demoLoopOffer_def passesCapacity_def inTimeWindow_def
      windowTolerance_def withinWalk_def forwardOrder_def eval_defs)

lemma demoLoop_detour:
  "detourMinutesOf demoRequest demoLoopOffer = Fin (6371 * pi / 2250)"
  by (simp add: demoRequest_def demoLoopOffer_def detourMinutesOf_def eval_defs)

lemma demoLoop_rejected:
  "detourRejects (detourMinutesOf demoRequest demoLoopOffer) (maxDetourMinutes demoLoopOffer)"
  using pi_ge_two by (simp add: demoLoop_detour detourRejects_def jgt_def)

lemma demoWalk_survives: "survives demoRequest demoWalkOffer"
  using pi_less_4
  by (simp add: survives_def demoRequest_def demoWalkOffer_def passesCapacity_def inTimeWindow_def
      windowTolerance_def withinWalk_def forwardOrder_def detourMinutesOf_def detourRejects_def
      eval_defs)

lemma demoWalk_score: "scoreOf demoRequest demoWalkOffer = Fin (6371 * pi / 180000)"
  by (simp add: scoreOf_def demoRequest_def demoWalkOffer_def detourMinutesOf_def eval_defs)

lemma demoNaN_survives: "survives demoRequest demoNaNOffer"
  by (simp add: survives_def demoRequest_def demoNaNOffer_def passesCapacity_def inTimeWindow_def
      windowTolerance_def withinWalk_def forwardOrder_def detourMinutesOf_def detourRejects_def
      demo_min_from demo_min_to demo_idx_from demo_idx_to
      estimateDetourDistance_def detourDistanceToMinutes_def jgt_def jsub_def Let_def
      hav_nonfinite finiteCoord_def isCorrectDirection_def)

lemma demoNaN_score: "scoreOf demoRequest demoNaNOffer = NaN"
  by (simp add: scoreOf_def demoRequest_def demoNaNOffer_def detourMinutesOf_def
      estimateDetourDistance_def detourDistanceToMinutes_def jsub_def Let_def
      hav_nonfinite finiteCoord_def isCorrectDirection_def)

lemmas demo_candidates = candidates_Cons demoWalk_survives demoWalk_score demoNaN_survives
  demoNaN_score demo_survives0 demo_score0 demo_empty_route

lemma demo_sort_with:
  "findMatches [demoWalkOffer, demoNaNOffer, demoOffer] demoRequest (ValidDate 0) =
     Inr [(demoWalkOffer, Fin (6371 * pi / 180000)), (demoNaNOffer, NaN), (demoOffer, Fin 0)]"
  by (simp add: findMatches_eq demo_candidates candidates_def arraySort_def sortCompare_def
      compareScore_def jsub_def jgt_def)

lemma demo_sort_without:
  "findMatches [demoWalkOffer, demoOffer] demoRequest (ValidDate 0) =
     Inr [(demoOffer, Fin 0), (demoWalkOffer, Fin (6371 * pi / 180000))]"
  by (simp add: findMatches_eq demo_candidates candidates_def arraySort_def sortCompare_def
      compareScore_def jsub_def jgt_def)

section \<open>The time window\<close>

text \<open>
  Claim C1, as amended. The tolerance \<open>tol\<close> is 5 minutes when \<open>request.rideNow\<close> is true
  and 15 minutes otherwise, in milliseconds. When the departure times of the offer and of
  the request are valid dates, with the time values \<open>t\<close> and \<open>T\<close>: an offer with \<open>t\<close>
  outside the closed interval from \<open>T - tol\<close> to \<open>T + tol\<close> is never in the result, and an
  offer that passes the other four filters is in the result if and only if \<open>t\<close> lies in
  that interval, both ends included. When one of the two dates is invalid, the time-window
  filter rejects nothing: an offer that passes the other four filters is in the result.
\<close>

theorem time_window_filter:
  "\<exists>results. findMatches offers request currentTime = Inr results \<and>
     (\<forall>offer\<in>set offers. \<forall>t T.
        departureTime offer = ValidDate t \<and> departureTime_req request = ValidDate T \<longrightarrow>
        (let tol = (if rideNow request then 5 else 15) * 60 * 1000;
             inside = (T - tol \<le> t \<and> t \<le> T + tol)
         in (\<not> inside \<longrightarrow> offer \<notin> fst ` set results) \<and>
            (passesCapacity offer \<and> withinWalk request offer \<and> forwardOrder request offer \<and>
             \<not> detourRejects (detourMinutesOf request offer) (maxDetourMinutes offer) \<longrightarrow>
               (offer \<in> fst ` set results \<longleftrightarrow> inside)))) \<and>
     (\<forall>offer\<in>set offers.
        departureTime offer = InvalidDate \<or> departureTime_req request = InvalidDate \<longrightarrow>
        passesCapacity offer \<and> withinWalk request offer \<and> forwardOrder request offer \<and>
        \<not> detourRejects (detourMinutesOf request offer) (maxDetourMinutes offer) \<longrightarrow>
        offer \<in> fst ` set results)"
proof -
  let ?res = "arraySort compareScore (candidates request offers)"
  have 1: "(let tol = (if rideNow request then 5 else 15) * 60 * 1000;
             inside = (T - tol \<le> t \<and> t \<le> T + tol)
         in (\<not> inside \<longrightarrow> offer \<notin> fst ` set ?res) \<and>
            (passesCapacity offer \<and> withinWalk request offer \<and> forwardOrder request offer \<and>
             \<not> detourRejects (detourMinutesOf request offer) (maxDetourMinutes offer) \<longrightarrow>
               (offer \<in> fst ` set ?res \<longleftrightarrow> inside)))"
    if "offer \<in> set offers" "departureTime offer = ValidDate t"
      "departureTime_req request = ValidDate T" for offer t T
    using that(1) inTimeWindow_valid [OF that(2,3)]
    by (cases "rideNow request") (auto simp: offers_in_results survives_def Let_def)
  have 2: "offer \<in> fst ` set ?res"
    if "offer \<in> set offers"
      "departureTime offer = InvalidDate \<or> departureTime_req request = InvalidDate"
      "passesCapacity offer \<and> withinWalk request offer \<and> forwardOrder request offer \<and>
        \<not> detourRejects (detourMinutesOf request offer) (maxDetourMinutes offer)" for offer
    using that(1,3) inTimeWindow_invalid [OF that(2)]
    by (simp add: offers_in_results survives_def)
  from 1 2 show ?thesis unfolding findMatches_eq by blast
qed

text \<open>
  At a request with \<open>rideNow\<close> set and departure time 0, an offer leaving exactly 300000 ms
  later is retained, one leaving 300001 ms later is rejected, and one with an invalid date
  is retained.
\<close>

theorem time_window_filter_witness:
  "departureTime (demoOffer\<lparr>departureTime := ValidDate 300000\<rparr>) = ValidDate 300000 \<and>
   departureTime (demoOffer\<lparr>departureTime := ValidDate 300001\<rparr>) = ValidDate 300001 \<and>
   departureTime (demoOffer\<lparr>departureTime := InvalidDate\<rparr>) = InvalidDate \<and>
   departureTime_req demoRequest = ValidDate 0 \<and> rideNow demoRequest \<and>
   passesCapacity (demoOffer\<lparr>departureTime := ValidDate 300000\<rparr>) \<and>
   withinWalk demoRequest (demoOffer\<lparr>departureTime := ValidDate 300000\<rparr>) \<and>
   forwardOrder demoRequest (demoOffer\<lparr>departureTime := ValidDate 300000\<rparr>) \<and>
   \<not> detourRejects (detourMinutesOf demoRequest (demoOffer\<lparr>departureTime := ValidDate 300000\<rparr>))
       (maxDetourMinutes (demoOffer\<lparr>departureTime := ValidDate 300000\<rparr>)) \<and>
   passesCapacity (demoOffer\<lparr>departureTime := InvalidDate\<rparr>) \<and>
   withinWalk demoRequest (demoOffer\<lparr>departureTime := InvalidDate\<rparr>) \<and>
   forwardOrder demoRequest (demoOffer\<lparr>departureTime := InvalidDate\<rparr>) \<and>
   \<not> detourRejects (detourMinutesOf demoRequest (demoOffer\<lparr>departureTime := InvalidDate\<rparr>))
       (maxDetourMinutes (demoOffer\<lparr>departureTime := InvalidDate\<rparr>)) \<and>
   (\<exists>results. findMatches [demoOffer\<lparr>departureTime := ValidDate 300000\<rparr>,
                           demoOffer\<lparr>departureTime := ValidDate 300001\<rparr>,
                           demoOffer\<lparr>departureTime := InvalidDate\<rparr>]
                 demoRequest (ValidDate 0) = Inr results \<and>
      demoOffer\<lparr>departureTime := ValidDate 300000\<rparr> \<in> fst ` set results \<and>
      demoOffer\<lparr>departureTime := ValidDate 300001\<rparr> \<notin> fst ` set results \<and>
      demoOffer\<lparr>departureTime := InvalidDate\<rparr> \<in> fst ` set results)"
proof -
  let ?a = "demoOffer\<lparr>departureTime := ValidDate 300000\<rparr>"
  let ?b = "demoOffer\<lparr>departureTime := ValidDate 300001\<rparr>"
  let ?c = "demoOffer\<lparr>departureTime := InvalidDate\<rparr>"
  from time_window_filter [of "[?a, ?b, ?c]" demoRequest "ValidDate 0"]
  obtain results where r: "findMatches [?a, ?b, ?c] demoRequest (ValidDate 0) = Inr results"
    and w: "\<forall>offer\<in>set [?a, ?b, ?c]. \<forall>t T.
        departureTime offer = ValidDate t \<and> departureTime_req demoRequest = ValidDate T \<longrightarrow>
        (let tol = (if rideNow demoRequest then 5 else 15) * 60 * 1000;
             inside = (T - tol \<le> t \<and> t \<le> T + tol)
         in (\<not> inside \<longrightarrow> offer \<notin> fst ` set results) \<and>
            (passesCapacity offer \<and> withinWalk demoRequest offer \<and> forwardOrder demoRequest offer \<and>
             \<not> detourRejects (detourMinutesOf demoRequest offer) (maxDetourMinutes offer) \<longrightarrow>
               (offer \<in> fst ` set results \<longleftrightarrow> inside)))"
    and i: "\<forall>offer\<in>set [?a, ?b, ?c].
        departureTime offer = InvalidDate \<or> departureTime_req demoRequest = InvalidDate \<longrightarrow>
        passesCapacity offer \<and> withinWalk demoRequest offer \<and> forwardOrder demoRequest offer \<and>
        \<not> detourRejects (detourMinutesOf demoRequest offer) (maxDetourMinutes offer) \<longrightarrow>
        offer \<in> fst ` set results"
    by blast
  from w have "?a \<in> fst ` set results" "?b \<notin> fst ` set results"
    by (simp_all add: demo_filters demoRequest_fields Let_def)
  moreover from i have "?c \<in> fst ` set results"
    by (simp add: demo_filters)
  ultimately show ?thesis using r by (simp add: demo_filters demoRequest_fields)
qed

text \<open>
  Claim C1 as stated covers every offer. The time value of an invalid date is NaN, which
  lies in no interval, and both comparisons of the window guard are false for it: the offer
  is retained.
\<close>

theorem time_window_invalid_date_counterexample:
  "findMatches [demoOffer\<lparr>departureTime := InvalidDate\<rparr>] demoRequest (ValidDate 0) =
     Inr [(demoOffer\<lparr>departureTime := InvalidDate\<rparr>, Fin 0)]"
  by (simp add: findMatches_eq candidates_def demo_invalid_date arraySort_def)

section \<open>The current time\<close>

text \<open>
  Claim C2, as amended. The result of \<open>findMatches\<close> does not depend on the
  \<open>currentTime\<close> argument: the parameter is never read, and the departure window is built
  from \<open>request.departureTime\<close> and \<open>request.rideNow\<close> alone. Two calls that differ only
  in the current time return the same result.
\<close>

theorem findMatches_ignores_currentTime:
  "findMatches offers request t1 = findMatches offers request t2"
  by (simp add: findMatches_def)

text \<open>
  Claim C2 as stated asks for an offer list and a request on which two current times give
  different results. There is none.
\<close>

theorem currentTime_dependence_counterexample:
  "\<not> (\<exists>offers request t1 t2. findMatches offers request t1 \<noteq> findMatches offers request t2)"
  by (simp add: findMatches_def)

section \<open>The detour filter\<close>

text \<open>
  Claim C3. An offer that survives the capacity, time-window, walking-distance and
  direction filters is left out of the result if and only if its estimated detour in
  minutes exceeds \<open>offer.maxDetourMinutes\<close> or exceeds the fixed ceiling of 5 minutes. The
  guard rejects a detour of 8 minutes at \<open>maxDetourMinutes = 10\<close> and a detour of 4 minutes
  at \<open>maxDetourMinutes = 3\<close>, and an offer with such values is not in the result.
\<close>

theorem detour_filter:
  "detourRejects (Fin 8) (Fin 10) \<and> detourRejects (Fin 4) (Fin 3) \<and>
   (\<exists>results. findMatches offers request currentTime = Inr results \<and>
     (\<forall>offer\<in>set offers.
        let detourMeters = estimateDetourDistance offer (from_req request) (to_req request);
            detourMinutes = detourDistanceToMinutes detourMeters (Fin 30)
        in (passesCapacity offer \<and> inTimeWindow request offer \<and> withinWalk request offer \<and>
            forwardOrder request offer \<longrightarrow>
              (offer \<notin> fst ` set results \<longleftrightarrow>
                 jgt detourMinutes (maxDetourMinutes offer) \<or> jgt detourMinutes (Fin 5))) \<and>
           (maxDetourMinutes offer = Fin 10 \<and> detourMinutes = Fin 8 \<longrightarrow>
              offer \<notin> fst ` set results) \<and>
           (maxDetourMinutes offer = Fin 3 \<and> detourMinutes = Fin 4 \<longrightarrow>
              offer \<notin> fst ` set results)))"
  unfolding findMatches_eq
  by (auto simp: offers_in_results survives_def detourRejects_def detourMinutesOf_def jgt_def Let_def)

text \<open>
  A round trip that starts and ends west of the rider: it passes the first four filters,
  its detour is above 5 minutes, and it is rejected although it advertises 10 minutes.
\<close>

theorem detour_filter_witness:
  "passesCapacity demoLoopOffer \<and> inTimeWindow demoRequest demoLoopOffer \<and>
   withinWalk demoRequest demoLoopOffer \<and> forwardOrder demoRequest demoLoopOffer \<and>
   maxDetourMinutes demoLoopOffer = Fin 10 \<and>
   jgt (detourDistanceToMinutes
          (estimateDetourDistance demoLoopOffer (from_req demoRequest) (to_req demoRequest))
          (Fin 30)) (Fin 5) \<and>
   (\<exists>results. findMatches [demoLoopOffer] demoRequest (ValidDate 0) = Inr results \<and>
      demoLoopOffer \<notin> fst ` set results)"
proof -
  have rej: "jgt (detourDistanceToMinutes
          (estimateDetourDistance demoLoopOffer (from_req demoRequest) (to_req demoRequest))
          (Fin 30)) (Fin 5)"
    using pi_ge_two demoLoop_detour by (simp add: detourMinutesOf_def jgt_def)
  have md: "maxDetourMinutes demoLoopOffer = Fin 10" by (simp add: demoLoopOffer_def)
  from detour_filter [of "[demoLoopOffer]" demoRequest "ValidDate 0"]
  obtain results where r: "findMatches [demoLoopOffer] demoRequest (ValidDate 0) = Inr results"
    and a: "\<forall>offer\<in>set [demoLoopOffer].
        let detourMeters = estimateDetourDistance offer (from_req demoRequest) (to_req demoRequest);
            detourMinutes = detourDistanceToMinutes detourMeters (Fin 30)
        in (passesCapacity offer \<and> inTimeWindow demoRequest offer \<and> withinWalk demoRequest offer \<and>
            forwardOrder demoRequest offer \<longrightarrow>
              (offer \<notin> fst ` set results \<longleftrightarrow>
                 jgt detourMinutes (maxDetourMinutes offer) \<or> jgt detourMinutes (Fin 5))) \<and>
           (maxDetourMinutes offer = Fin 10 \<and> detourMinutes = Fin 8 \<longrightarrow>
              offer \<notin> fst ` set results) \<and>
           (maxDetourMinutes offer = Fin 3 \<and> detourMinutes = Fin 4 \<longrightarrow>
              offer \<notin> fst ` set results)"
    by blast
  from a rej demoLoop_filters have "demoLoopOffer \<notin> fst ` set results"
    by (simp add: Let_def)
  with r rej md demoLoop_filters show ?thesis by blast
qed

section \<open>The direction filter\<close>

text \<open>
  Claim C4. \<open>isCorrectDirection\<close> holds if and only if both indices are at least 0 and the
  pickup index is strictly below the dropoff index. In \<open>findMatches\<close>, with \<open>p\<close> and \<open>d\<close> the
  indices of the nearest waypoints to the pickup and to the dropoff on the route of an
  offer: the offer is never in the result unless both indices are at least 0 and \<open>p < d\<close>
  (so not when one of them is the sentinel, when they are equal, or when the pickup comes
  later), whatever its distances and detour; and an offer that passes the other four
  filters is in the result if and only if both indices are at least 0 and \<open>p < d\<close>.
\<close>

theorem direction_filter:
  "(isCorrectDirection pickupIdx dropoffIdx \<longleftrightarrow>
      0 \<le> pickupIdx \<and> 0 \<le> dropoffIdx \<and> pickupIdx < dropoffIdx) \<and>
   (\<exists>results. findMatches offers request currentTime = Inr results \<and>
     (\<forall>offer\<in>set offers. \<exists>p d.
        nearestWaypointIdx (from_req request) (route offer) = Inr p \<and>
        nearestWaypointIdx (to_req request) (route offer) = Inr d \<and>
        (d \<le> p \<longrightarrow> offer \<notin> fst ` set results) \<and>
        (\<not> (0 \<le> p \<and> 0 \<le> d \<and> p < d) \<longrightarrow> offer \<notin> fst ` set results) \<and>
        (passesCapacity offer \<and> inTimeWindow request offer \<and> withinWalk request offer \<and>
         \<not> detourRejects (detourMinutesOf request offer) (maxDetourMinutes offer) \<longrightarrow>
           (offer \<in> fst ` set results \<longleftrightarrow> 0 \<le> p \<and> 0 \<le> d \<and> p < d))))"
proof -
  let ?res = "arraySort compareScore (candidates request offers)"
  have per: "\<exists>p d.
        nearestWaypointIdx (from_req request) (route offer) = Inr p \<and>
        nearestWaypointIdx (to_req request) (route offer) = Inr d \<and>
        (d \<le> p \<longrightarrow> offer \<notin> fst ` set ?res) \<and>
        (\<not> (0 \<le> p \<and> 0 \<le> d \<and> p < d) \<longrightarrow> offer \<notin> fst ` set ?res) \<and>
        (passesCapacity offer \<and> inTimeWindow request offer \<and> withinWalk request offer \<and>
         \<not> detourRejects (detourMinutesOf request offer) (maxDetourMinutes offer) \<longrightarrow>
           (offer \<in> fst ` set ?res \<longleftrightarrow> 0 \<le> p \<and> 0 \<le> d \<and> p < d))"
    if o: "offer \<in> set offers" for offer
  proof -
    obtain p where p: "nearestWaypointIdx (from_req request) (route offer) = Inr p"
      using nearest_total by blast
    obtain d where d: "nearestWaypointIdx (to_req request) (route offer) = Inr d"
      using nearest_total by blast
    have f: "forwardOrder request offer \<longleftrightarrow> 0 \<le> p \<and> 0 \<le> d \<and> p < d"
      by (simp add: forwardOrder_def isCorrectDirection_def p d)
    have mem: "offer \<in> fst ` set ?res \<longleftrightarrow> survives request offer"
      using o by (simp add: offers_in_results)
    have 1: "d \<le> p \<longrightarrow> offer \<notin> fst ` set ?res"
      unfolding mem survives_def f by auto
    have 2: "\<not> (0 \<le> p \<and> 0 \<le> d \<and> p < d) \<longrightarrow> offer \<notin> fst ` set ?res"
      unfolding mem survives_def f by blast
    have 3: "passesCapacity offer \<and> inTimeWindow request offer \<and> withinWalk request offer \<and>
         \<not> detourRejects (detourMinutesOf request offer) (maxDetourMinutes offer) \<longrightarrow>
           (offer \<in> fst ` set ?res \<longleftrightarrow> 0 \<le> p \<and> 0 \<le> d \<and> p < d)"
      unfolding mem survives_def f by blast
    from p d 1 2 3 show ?thesis by blast
  qed
  then have all: "\<forall>offer\<in>set offers. \<exists>p d.
        nearestWaypointIdx (from_req request) (route offer) = Inr p \<and>
        nearestWaypointIdx (to_req request) (route offer) = Inr d \<and>
        (d \<le> p \<longrightarrow> offer \<notin> fst ` set ?res) \<and>
        (\<not> (0 \<le> p \<and> 0 \<le> d \<and> p < d) \<longrightarrow> offer \<notin> fst ` set ?res) \<and>
        (passesCapacity offer \<and> inTimeWindow request offer \<and> withinWalk request offer \<and>
         \<not> detourRejects (detourMinutesOf request offer) (maxDetourMinutes offer) \<longrightarrow>
           (offer \<in> fst ` set ?res \<longleftrightarrow> 0 \<le> p \<and> 0 \<le> d \<and> p < d))"
    by (rule ballI)
  have dir: "isCorrectDirection pickupIdx dropoffIdx \<longleftrightarrow>
      0 \<le> pickupIdx \<and> 0 \<le> dropoffIdx \<and> pickupIdx < dropoffIdx"
    by (simp add: isCorrectDirection_def)
  from dir all show ?thesis unfolding findMatches_eq by (intro conjI exI) (rule refl | assumption)+
qed

text \<open>
  The demo offer, whose route runs with the request (indices 0 and 1), is in the result;
  the same offer with the route reversed (indices 1 and 0) is not.
\<close>

theorem direction_filter_witness:
  "nearestWaypointIdx (from_req demoRequest) (route demoOffer) = Inr 0 \<and>
   nearestWaypointIdx (to_req demoRequest) (route demoOffer) = Inr 1 \<and>
   passesCapacity demoOffer \<and> inTimeWindow demoRequest demoOffer \<and>
   withinWalk demoRequest demoOffer \<and>
   \<not> detourRejects (detourMinutesOf demoRequest demoOffer) (maxDetourMinutes demoOffer) \<and>
   nearestWaypointIdx (from_req demoRequest)
     (route (demoOffer\<lparr>route := [pt 0 (1 / 100), pt 0 0]\<rparr>)) = Inr 1 \<and>
   nearestWaypointIdx (to_req demoRequest)
     (route (demoOffer\<lparr>route := [pt 0 (1 / 100), pt 0 0]\<rparr>)) = Inr 0 \<and>
   (\<exists>results. findMatches [demoOffer, demoOffer\<lparr>route := [pt 0 (1 / 100), pt 0 0]\<rparr>]
                  demoRequest (ValidDate 0) = Inr results \<and>
      demoOffer \<in> fst ` set results \<and>
      demoOffer\<lparr>route := [pt 0 (1 / 100), pt 0 0]\<rparr> \<notin> fst ` set results)"
proof -
  let ?rev = "demoOffer\<lparr>route := [pt 0 (1 / 100), pt 0 0]\<rparr>"
  have i: "nearestWaypointIdx (from_req demoRequest) (route demoOffer) = Inr 0"
    "nearestWaypointIdx (to_req demoRequest) (route demoOffer) = Inr 1"
    by (simp_all add: demoRequest_fields demoOffer_def demo_idx_from demo_idx_to)
  have j: "nearestWaypointIdx (from_req demoRequest) (route ?rev) = Inr 1"
    "nearestWaypointIdx (to_req demoRequest) (route ?rev) = Inr 0"
    by (simp_all add: demoRequest_fields eval_defs)
  have e: "demoOffer\<lparr>departureTime := ValidDate 0\<rparr> = demoOffer" by (simp add: demoOffer_def)
  have g: "passesCapacity demoOffer" "inTimeWindow demoRequest demoOffer"
    "withinWalk demoRequest demoOffer"
    "\<not> detourRejects (detourMinutesOf demoRequest demoOffer) (maxDetourMinutes demoOffer)"
    using demo_filters [of "ValidDate 0"] demo_window [of 0] by (simp_all add: e)
  have m1: "demoOffer \<in> set [demoOffer, ?rev]" by (rule list.set_intros(1))
  have m2: "?rev \<in> set [demoOffer, ?rev]"
    by (rule list.set_intros(2)) (rule list.set_intros(1))
  have "\<exists>results. findMatches [demoOffer, ?rev] demoRequest (ValidDate 0) = Inr results \<and>
     (\<forall>offer\<in>set [demoOffer, ?rev]. \<exists>p d.
        nearestWaypointIdx (from_req demoRequest) (route offer) = Inr p \<and>
        nearestWaypointIdx (to_req demoRequest) (route offer) = Inr d \<and>
        (d \<le> p \<longrightarrow> offer \<notin> fst ` set results) \<and>
        (\<not> (0 \<le> p \<and> 0 \<le> d \<and> p < d) \<longrightarrow> offer \<notin> fst ` set results) \<and>
        (passesCapacity offer \<and> inTimeWindow demoRequest offer \<and> withinWalk demoRequest offer \<and>
         \<not> detourRejects (detourMinutesOf demoRequest offer) (maxDetourMinutes offer) \<longrightarrow>
           (offer \<in> fst ` set results \<longleftrightarrow> 0 \<le> p \<and> 0 \<le> d \<and> p < d)))"
    using direction_filter [of 0 1 "[demoOffer, ?rev]" demoRequest "ValidDate 0"]
    by (rule conjunct2)
  then obtain results where ra: "findMatches [demoOffer, ?rev] demoRequest (ValidDate 0) = Inr results \<and>
     (\<forall>offer\<in>set [demoOffer, ?rev]. \<exists>p d.
        nearestWaypointIdx (from_req demoRequest) (route offer) = Inr p \<and>
        nearestWaypointIdx (to_req demoRequest) (route offer) = Inr d \<and>
        (d \<le> p \<longrightarrow> offer \<notin> fst ` set results) \<and>
        (\<not> (0 \<le> p \<and> 0 \<le> d \<and> p < d) \<longrightarrow> offer \<notin> fst ` set results) \<and>
        (passesCapacity offer \<and> inTimeWindow demoRequest offer \<and> withinWalk demoRequest offer \<and>
         \<not> detourRejects (detourMinutesOf demoRequest offer) (maxDetourMinutes offer) \<longrightarrow>
           (offer \<in> fst ` set results \<longleftrightarrow> 0 \<le> p \<and> 0 \<le> d \<and> p < d)))" ..
  from ra have r: "findMatches [demoOffer, ?rev] demoRequest (ValidDate 0) = Inr results"
    by (rule conjunct1)
  from ra have a: "\<forall>offer\<in>set [demoOffer, ?rev]. \<exists>p d.
        nearestWaypointIdx (from_req demoRequest) (route offer) = Inr p \<and>
        nearestWaypointIdx (to_req demoRequest) (route offer) = Inr d \<and>
        (d \<le> p \<longrightarrow> offer \<notin> fst ` set results) \<and>
        (\<not> (0 \<le> p \<and> 0 \<le> d \<and> p < d) \<longrightarrow> offer \<notin> fst ` set results) \<and>
        (passesCapacity offer \<and> inTimeWindow demoRequest offer \<and> withinWalk demoRequest offer \<and>
         \<not> detourRejects (detourMinutesOf demoRequest offer) (maxDetourMinutes offer) \<longrightarrow>
           (offer \<in> fst ` set results \<longleftrightarrow> 0 \<le> p \<and> 0 \<le> d \<and> p < d))"
    by (rule conjunct2)
  from bspec [OF a m1] obtain p d where
    pd: "nearestWaypointIdx (from_req demoRequest) (route demoOffer) = Inr p \<and>
    nearestWaypointIdx (to_req demoRequest) (route demoOffer) = Inr d \<and>
    (d \<le> p \<longrightarrow> demoOffer \<notin> fst ` set results) \<and>
    (\<not> (0 \<le> p \<and> 0 \<le> d \<and> p < d) \<longrightarrow> demoOffer \<notin> fst ` set results) \<and>
    (passesCapacity demoOffer \<and> inTimeWindow demoRequest demoOffer \<and>
         withinWalk demoRequest demoOffer \<and>
         \<not> detourRejects (detourMinutesOf demoRequest demoOffer) (maxDetourMinutes demoOffer) \<longrightarrow>
           (demoOffer \<in> fst ` set results \<longleftrightarrow> 0 \<le> p \<and> 0 \<le> d \<and> p < d))"
    by (elim exE)
  from pd i have "p = 0" "d = 1" by simp_all
  with pd g have 1: "demoOffer \<in> fst ` set results" by simp
  from bspec [OF a m2] obtain p' d' where
    pd': "nearestWaypointIdx (from_req demoRequest) (route ?rev) = Inr p' \<and>
    nearestWaypointIdx (to_req demoRequest) (route ?rev) = Inr d' \<and>
    (d' \<le> p' \<longrightarrow> ?rev \<notin> fst ` set results) \<and>
    (\<not> (0 \<le> p' \<and> 0 \<le> d' \<and> p' < d') \<longrightarrow> ?rev \<notin> fst ` set results) \<and>
    (passesCapacity ?rev \<and> inTimeWindow demoRequest ?rev \<and>
         withinWalk demoRequest ?rev \<and>
         \<not> detourRejects (detourMinutesOf demoRequest ?rev) (maxDetourMinutes ?rev) \<longrightarrow>
           (?rev \<in> fst ` set results \<longleftrightarrow> 0 \<le> p' \<and> 0 \<le> d' \<and> p' < d'))"
    by (elim exE)
  from pd' j have "p' = 1" "d' = 0" by simp_all
  with pd' have 2: "?rev \<notin> fst ` set results" by simp
  from r 1 2 have "\<exists>results. findMatches [demoOffer, ?rev] demoRequest (ValidDate 0) = Inr results \<and>
      demoOffer \<in> fst ` set results \<and> ?rev \<notin> fst ` set results"
    by (intro exI conjI)
  with i j g show ?thesis by (intro conjI)
qed

section \<open>The distance\<close>




section \<open>The nearest waypoint index\<close>

text \<open>
  Claim C6, as amended. For every point and path the search returns an index \<open>r\<close> from
  -1 up to the last index of the path. It returns the sentinel -1 if and only if no
  waypoint of the path has a distance to the point that is a number (so for the empty path,
  and also for a path whose distances all are NaN). Otherwise the distance of waypoint
  \<open>r\<close> is a number, no waypoint is strictly closer, and every waypoint before \<open>r\<close> is
  strictly farther or has the distance NaN. When the distance of every waypoint to the
  point is a number, the sentinel is returned if and only if the path is empty, and
  otherwise \<open>r\<close> is the lowest index among the waypoints of minimal distance.
\<close>

theorem nearest_waypoint_index:
  "\<exists>r. nearestWaypointIdx point path = Inr r \<and> - 1 \<le> r \<and> r < int (length path) \<and>
     (r = - 1 \<longleftrightarrow> (\<forall>w\<in>set path. haversineDistance point w = NaN)) \<and>
     (0 \<le> r \<longrightarrow>
        haversineDistance point (path ! nat r) \<noteq> NaN \<and>
        (\<forall>j<length path. \<not> jlt (haversineDistance point (path ! j))
                                 (haversineDistance point (path ! nat r))) \<and>
        (\<forall>j<nat r. haversineDistance point (path ! j) = NaN \<or>
                    jlt (haversineDistance point (path ! nat r))
                        (haversineDistance point (path ! j)))) \<and>
     ((\<forall>w\<in>set path. haversineDistance point w \<noteq> NaN) \<longrightarrow>
        (r = - 1 \<longleftrightarrow> path = []) \<and>
        (0 \<le> r \<longrightarrow>
           (\<forall>j<length path. jle (haversineDistance point (path ! nat r))
                                 (haversineDistance point (path ! j))) \<and>
           (\<forall>j<nat r. jlt (haversineDistance point (path ! nat r))
                           (haversineDistance point (path ! j)))))"
proof -
  obtain r where r: "nearestWaypointIdx point path = Inr r"
    and inv: "nearestInv point path r (length path)"
    using nearest_total by blast
  have rng: "- 1 \<le> r" "r < int (length path)" using inv by (simp_all add: nearestInv_def)
  have sent: "r = - 1 \<longleftrightarrow> (\<forall>w\<in>set path. haversineDistance point w = NaN)"
    using inv by (rule nearest_sentinel_iff)
  have gen: "haversineDistance point (path ! nat r) \<noteq> NaN \<and>
        (\<forall>j<length path. \<not> jlt (haversineDistance point (path ! j))
                                 (haversineDistance point (path ! nat r))) \<and>
        (\<forall>j<nat r. haversineDistance point (path ! j) = NaN \<or>
                    jlt (haversineDistance point (path ! nat r))
                        (haversineDistance point (path ! j)))" if "0 \<le> r"
    using inv that by (simp add: nearestInv_def)
  have fin: "(r = - 1 \<longleftrightarrow> path = []) \<and>
        (0 \<le> r \<longrightarrow>
           (\<forall>j<length path. jle (haversineDistance point (path ! nat r))
                                 (haversineDistance point (path ! j))) \<and>
           (\<forall>j<nat r. jlt (haversineDistance point (path ! nat r))
                           (haversineDistance point (path ! j))))"
    if f: "\<forall>w\<in>set path. haversineDistance point w \<noteq> NaN"
  proof -
    have nn: "haversineDistance point w \<noteq> NaN" if "w \<in> set path" for w
      using f that by simp
    then have nn': "haversineDistance point (path ! j) \<noteq> NaN" if "j < length path" for j
      using that by simp
    have 1: "r = - 1 \<longleftrightarrow> path = []"
    proof
      assume "r = - 1"
      with sent nn have "set path = {}" by auto
      then show "path = []" by simp
    next
      assume "path = []" with sent show "r = - 1" by simp
    qed
    have 2: "(\<forall>j<length path. jle (haversineDistance point (path ! nat r))
                                 (haversineDistance point (path ! j))) \<and>
           (\<forall>j<nat r. jlt (haversineDistance point (path ! nat r))
                           (haversineDistance point (path ! j)))" if "0 \<le> r"
    proof -
      from that rng have rl: "nat r < length path" by simp
      from gen [OF that] nn' rl show ?thesis
        by (auto simp: jle_Fin_iff)
    qed
    from 1 2 show ?thesis by blast
  qed
  from r rng sent gen fin show ?thesis by blast
qed

text \<open>
  A path of three waypoints on the equator, each at a distance that is a number, whose
  second and third waypoint are equally near: the second is chosen.
\<close>

theorem nearest_waypoint_index_witness:
  "haversineDistance (pt 0 0) (pt 0 (1 / 100)) \<noteq> NaN \<and>
   haversineDistance (pt 0 0) (pt 0 0) \<noteq> NaN \<and>
   nearestWaypointIdx (pt 0 0) [pt 0 (1 / 100), pt 0 0, pt 0 0] = Inr 1 \<and>
   jle (haversineDistance (pt 0 0) (pt 0 0)) (haversineDistance (pt 0 0) (pt 0 (1 / 100))) \<and>
   jle (haversineDistance (pt 0 0) (pt 0 0)) (haversineDistance (pt 0 0) (pt 0 0)) \<and>
   jlt (haversineDistance (pt 0 0) (pt 0 0)) (haversineDistance (pt 0 0) (pt 0 (1 / 100)))"
proof -
  let ?path = "[pt 0 (1 / 100), pt 0 0, pt 0 0]"
  have f: "haversineDistance (pt 0 0) (pt 0 (1 / 100)) \<noteq> NaN"
    "haversineDistance (pt 0 0) (pt 0 0) \<noteq> NaN"
    by (simp_all add: eval_defs)
  then have fs: "\<forall>w\<in>set ?path. haversineDistance (pt 0 0) w \<noteq> NaN" by simp
  have v: "nearestWaypointIdx (pt 0 0) ?path = Inr 1"
    by (simp add: eval_defs)
  from nearest_waypoint_index [of "pt 0 0" ?path] fs v
  have a: "\<forall>j<length ?path. jle (haversineDistance (pt 0 0) (?path ! nat 1))
                                 (haversineDistance (pt 0 0) (?path ! j))"
    and b: "\<forall>j<nat 1. jlt (haversineDistance (pt 0 0) (?path ! nat 1))
                           (haversineDistance (pt 0 0) (?path ! j))"
    by auto
  from a [rule_format, of 0] a [rule_format, of 1] b [rule_format, of 0]
  have "jle (haversineDistance (pt 0 0) (pt 0 0)) (haversineDistance (pt 0 0) (pt 0 (1 / 100)))"
    "jle (haversineDistance (pt 0 0) (pt 0 0)) (haversineDistance (pt 0 0) (pt 0 0))"
    "jlt (haversineDistance (pt 0 0) (pt 0 0)) (haversineDistance (pt 0 0) (pt 0 (1 / 100)))"
    by simp_all
  then show ?thesis using f v by simp
qed

text \<open>
  Claim C6 as stated says that the sentinel is returned only for the empty path. A path of
  one waypoint whose latitude is NaN also yields it.
\<close>

theorem nearest_sentinel_counterexample:
  "[\<lparr>lat = NaN, lon = Fin 0\<rparr>] \<noteq> [] \<and>
   nearestWaypointIdx (pt 0 0) [\<lparr>lat = NaN, lon = Fin 0\<rparr>] = Inr (- 1)"
  by (simp add: nearest_single hav_nonfinite finiteCoord_def)

section \<open>One offer does not disturb the others\<close>

text \<open>
  Claim C7, as amended. Compare a call on a list that contains the offer \<open>m\<close> with the call
  on the list without it. Whatever \<open>m\<close> is, the entries of the two results are the same
  apart from the entry of \<open>m\<close>, and every entry carries the score that its own offer
  has against the request, so the presence and the score of the other offers do not
  depend on \<open>m\<close>. If \<open>m\<close> does not survive the filters the two results are equal. If
  \<open>m\<close> survives and no score in the result is NaN, the result with \<open>m\<close> is the result
  without it with the entry of \<open>m\<close> inserted at one place, so the ranking of the others
  among themselves is the same.
\<close>

theorem offer_noninterference:
  "\<exists>res res'. findMatches (xs @ m # ys) request currentTime = Inr res \<and>
      findMatches (xs @ ys) request currentTime = Inr res' \<and>
      set res = (if survives request m then insert (m, scoreOf request m) (set res') else set res') \<and>
      (\<forall>r\<in>set res. snd r = scoreOf request (fst r)) \<and>
      (\<not> survives request m \<longrightarrow> res = res') \<and>
      (survives request m \<and> (\<forall>r\<in>set res. snd r \<noteq> NaN) \<longrightarrow>
         (\<exists>us vs. res = us @ (m, scoreOf request m) # vs \<and> res' = us @ vs))"
proof -
  let ?res = "arraySort compareScore (candidates request (xs @ m # ys))"
  let ?res' = "arraySort compareScore (candidates request (xs @ ys))"
  have 1: "set ?res = (if survives request m then insert (m, scoreOf request m) (set ?res')
                       else set ?res')"
    by (auto simp: set_arraySort candidates_append candidates_Cons)
  have 2: "\<forall>r\<in>set ?res. snd r = scoreOf request (fst r)"
    using candidates_scores by (auto simp: set_arraySort)
  have 3: "?res = ?res'" if "\<not> survives request m"
    using that by (simp add: candidates_append candidates_Cons)
  have 4: "\<exists>us vs. ?res = us @ (m, scoreOf request m) # vs \<and> ?res' = us @ vs"
    if s: "survives request m" and n: "\<forall>r\<in>set ?res. snd r \<noteq> NaN"
  proof -
    from n have a: "\<forall>r\<in>set (candidates request (xs @ m # ys)). snd r \<noteq> NaN"
      by (simp add: set_arraySort)
    then have b: "\<forall>r\<in>set (candidates request (xs @ ys)). snd r \<noteq> NaN"
      by (auto simp: candidates_append candidates_Cons split: if_splits)
    have "?res = sort_key realScore (candidates request xs @ (m, scoreOf request m) # candidates request ys)"
      using sorted_results(1) [OF a] s by (simp add: candidates_append candidates_Cons)
    moreover have "?res' = sort_key realScore (candidates request xs @ candidates request ys)"
      using sorted_results(1) [OF b] by (simp add: candidates_append)
    ultimately show ?thesis
      using sort_key_remove [of realScore "candidates request xs" "(m, scoreOf request m)"
          "candidates request ys"] by simp
  qed
  from 1 2 3 4 show ?thesis unfolding findMatches_eq by blast
qed

text \<open>
  A malformed offer with an empty route leaves the result as it is, and the demo offer is
  inserted into the result of the others, in which no score is NaN.
\<close>

theorem offer_noninterference_witness:
  "\<not> survives demoRequest (demoOffer\<lparr>route := []\<rparr>) \<and>
   findMatches [demoWalkOffer, demoOffer\<lparr>route := []\<rparr>, demoOffer] demoRequest (ValidDate 0) =
     findMatches [demoWalkOffer, demoOffer] demoRequest (ValidDate 0) \<and>
   survives demoRequest demoOffer \<and>
   findMatches [demoWalkOffer, demoOffer] demoRequest (ValidDate 0) =
     Inr [(demoOffer, Fin 0), (demoWalkOffer, Fin (6371 * pi / 180000))] \<and>
   Fin 0 \<noteq> NaN \<and> Fin (6371 * pi / 180000) \<noteq> NaN \<and>
   (\<exists>us vs. findMatches [demoWalkOffer, demoOffer] demoRequest (ValidDate 0) =
               Inr (us @ (demoOffer, scoreOf demoRequest demoOffer) # vs) \<and>
            findMatches [demoWalkOffer] demoRequest (ValidDate 0) = Inr (us @ vs))"
proof -
  have a: "findMatches [demoWalkOffer, demoOffer\<lparr>route := []\<rparr>, demoOffer] demoRequest (ValidDate 0) =
     findMatches [demoWalkOffer, demoOffer] demoRequest (ValidDate 0)"
    using offer_noninterference [of "[demoWalkOffer]" "demoOffer\<lparr>route := []\<rparr>" "[demoOffer]"
        demoRequest "ValidDate 0"] demo_empty_route by auto
  from offer_noninterference [of "[demoWalkOffer]" demoOffer "[]" demoRequest "ValidDate 0"]
  obtain res res' where "findMatches ([demoWalkOffer] @ demoOffer # []) demoRequest (ValidDate 0) = Inr res"
    and "findMatches ([demoWalkOffer] @ []) demoRequest (ValidDate 0) = Inr res'"
    and i: "survives demoRequest demoOffer \<and> (\<forall>r\<in>set res. snd r \<noteq> NaN) \<longrightarrow>
         (\<exists>us vs. res = us @ (demoOffer, scoreOf demoRequest demoOffer) # vs \<and> res' = us @ vs)"
    by blast
  then have r: "findMatches [demoWalkOffer, demoOffer] demoRequest (ValidDate 0) = Inr res"
    and r': "findMatches [demoWalkOffer] demoRequest (ValidDate 0) = Inr res'"
    by simp_all
  from r demo_sort_without
  have "res = [(demoOffer, Fin 0), (demoWalkOffer, Fin (6371 * pi / 180000))]" by simp
  then have "\<forall>r\<in>set res. snd r \<noteq> NaN" by simp
  with i demo_survives0
  obtain us vs where "res = us @ (demoOffer, scoreOf demoRequest demoOffer) # vs" "res' = us @ vs"
    by blast
  with r r' have b: "\<exists>us vs. findMatches [demoWalkOffer, demoOffer] demoRequest (ValidDate 0) =
               Inr (us @ (demoOffer, scoreOf demoRequest demoOffer) # vs) \<and>
            findMatches [demoWalkOffer] demoRequest (ValidDate 0) = Inr (us @ vs)"
    by blast
  have n: "Fin 0 \<noteq> NaN" "Fin (6371 * pi / 180000) \<noteq> NaN" by simp_all
  from a b n demo_empty_route demo_survives0 demo_sort_without show ?thesis by blast
qed

text \<open>
  Claim C7 as stated covers every malformed offer. An offer whose departure latitude is NaN
  passes all filters with the score NaN (no comparison with NaN is true), and the comparator
  then returns NaN against every other entry, which counts as equal. Without that offer the
  two others are ranked by their scores; with it between them they keep their input order,
  the worse one first.
\<close>

theorem offer_noninterference_counterexample:
  "findMatches [demoWalkOffer, demoNaNOffer, demoOffer] demoRequest (ValidDate 0) =
     Inr [(demoWalkOffer, Fin (6371 * pi / 180000)), (demoNaNOffer, NaN), (demoOffer, Fin 0)] \<and>
   findMatches [demoWalkOffer, demoOffer] demoRequest (ValidDate 0) =
     Inr [(demoOffer, Fin 0), (demoWalkOffer, Fin (6371 * pi / 180000))]"
  using demo_sort_with demo_sort_without by simp

section \<open>Degenerate routes\<close>

text \<open>
  Claim C8, as amended. An offer whose route has fewer than two waypoints is never in the
  result of \<open>findMatches\<close>, and no error is raised in either case. On an empty route the
  nearest distance is \<open>Infinity\<close> and the nearest index is the sentinel -1. On a route of
  one waypoint the nearest index is 0, or the sentinel -1 when the distance to that
  waypoint is NaN. The direction check rejects every pair of such indices.
\<close>

theorem degenerate_routes_excluded:
  "(\<exists>results. findMatches offers request currentTime = Inr results \<and>
      (\<forall>offer\<in>set offers. length (route offer) < 2 \<longrightarrow> offer \<notin> fst ` set results)) \<and>
   minDistanceToRoute p [] = PInf \<and> nearestWaypointIdx p [] = Inr (- 1) \<and>
   nearestWaypointIdx p [w] = Inr (if haversineDistance p w = NaN then - 1 else 0) \<and>
   \<not> isCorrectDirection (- 1) (- 1) \<and> \<not> isCorrectDirection (- 1) 0 \<and>
   \<not> isCorrectDirection 0 (- 1) \<and> \<not> isCorrectDirection 0 0"
proof -
  have "\<forall>offer\<in>set offers. length (route offer) < 2 \<longrightarrow>
          offer \<notin> fst ` set (arraySort compareScore (candidates request offers))"
    using short_route_not_forward by (auto simp: offers_in_results survives_def)
  moreover have "minDistanceToRoute p [] = PInf \<and> nearestWaypointIdx p [] = Inr (- 1)"
    by (simp add: minDistanceToRoute_def nearestWaypointIdx_def)
  ultimately show ?thesis
    unfolding findMatches_eq by (simp add: isCorrectDirection_def nearest_single)
qed

text \<open>
  The demo offer between a copy with an empty route and a copy with a single waypoint.
\<close>

theorem degenerate_routes_excluded_witness:
  "length (route (demoOffer\<lparr>route := []\<rparr>)) < 2 \<and>
   length (route (demoOffer\<lparr>route := [pt 0 0]\<rparr>)) < 2 \<and>
   (\<exists>results. findMatches [demoOffer\<lparr>route := []\<rparr>, demoOffer, demoOffer\<lparr>route := [pt 0 0]\<rparr>]
       demoRequest (ValidDate 0) = Inr results \<and>
     demoOffer\<lparr>route := []\<rparr> \<notin> fst ` set results \<and>
     demoOffer\<lparr>route := [pt 0 0]\<rparr> \<notin> fst ` set results) \<and>
   haversineDistance (pt 0 (1 / 100)) (pt 0 0) \<noteq> NaN \<and>
   nearestWaypointIdx (pt 0 (1 / 100)) [pt 0 0] = Inr 0"
proof -
  have len: "length (route (demoOffer\<lparr>route := []\<rparr>)) < 2"
    "length (route (demoOffer\<lparr>route := [pt 0 0]\<rparr>)) < 2" by simp_all
  have n: "haversineDistance (pt 0 (1 / 100)) (pt 0 0) \<noteq> NaN" by (simp add: eval_defs)
  from degenerate_routes_excluded [of "[demoOffer\<lparr>route := []\<rparr>, demoOffer, demoOffer\<lparr>route := [pt 0 0]\<rparr>]"
      demoRequest "ValidDate 0" "pt 0 (1 / 100)" "pt 0 0"]
  obtain results where r: "findMatches [demoOffer\<lparr>route := []\<rparr>, demoOffer, demoOffer\<lparr>route := [pt 0 0]\<rparr>]
       demoRequest (ValidDate 0) = Inr results"
    and a: "\<forall>offer\<in>set [demoOffer\<lparr>route := []\<rparr>, demoOffer, demoOffer\<lparr>route := [pt 0 0]\<rparr>].
       length (route offer) < 2 \<longrightarrow> offer \<notin> fst ` set results"
    and i: "nearestWaypointIdx (pt 0 (1 / 100)) [pt 0 0] =
              Inr (if haversineDistance (pt 0 (1 / 100)) (pt 0 0) = NaN then - 1 else 0)"
    by blast
  from a have "demoOffer\<lparr>route := []\<rparr> \<notin> fst ` set results"
    "demoOffer\<lparr>route := [pt 0 0]\<rparr> \<notin> fst ` set results" by simp_all
  moreover from i n have "nearestWaypointIdx (pt 0 (1 / 100)) [pt 0 0] = Inr 0" by simp
  ultimately show ?thesis using r n len by blast
qed

text \<open>
  Claim C8 as stated says that on a route of one waypoint both nearest indices are 0. When
  the longitude of the waypoint is \<open>Infinity\<close> its distance is NaN and the index is the
  sentinel; the offer is excluded all the same.
\<close>

theorem single_waypoint_index_counterexample:
  "nearestWaypointIdx (pt 0 0) [\<lparr>lat = Fin 0, lon = PInf\<rparr>] = Inr (- 1)"
  by (simp add: nearest_single hav_nonfinite finiteCoord_def)

section \<open>The order of the result\<close>




end
